theory Spec2Isabelle
  imports Main
begin

section \<open>JavaScript values and the adapter\<close>

text \<open>
  Primitive values of the payloads. \<open>JNum\<close> holds the integral numbers (timestamps,
  levels); \<open>JNaN\<close> is the result of arithmetic on an invalid date.
\<close>

datatype jsval = JUndefined | JNull | JBool bool | JNum int | JNaN | JStr string

datatype error = TypeError

fun truthy :: "jsval \<Rightarrow> bool" where
  "truthy JUndefined = False"
| "truthy JNull = False"
| "truthy (JBool b) = b"
| "truthy (JNum n) = (n \<noteq> 0)"
| "truthy JNaN = False"
| "truthy (JStr s) = (s \<noteq> [])"

text \<open>The operator \<open>===\<close> on primitive values.\<close>

definition strict_eq :: "jsval \<Rightarrow> jsval \<Rightarrow> bool" where
  "strict_eq a b = (a = b \<and> a \<noteq> JNaN)"

record state =
  ts :: jsval
  ack :: bool
  val :: jsval

text \<open>\<open>adapter.setState(id, state)\<close> and \<open>adapter.setState(id, val, ack)\<close>.\<close>

datatype setState_arg = StateObject state | StateValue jsval bool

fun val_of :: "setState_arg \<Rightarrow> jsval" where
  "val_of (StateObject st) = val st"
| "val_of (StateValue v a) = v"

datatype log_entry = Debug string | Error string

datatype socket = Socket

datatype socket_call = SocketEmitAuthorize | SocketClose

text \<open>
  The client object together with what it acts on: the adapter's state store (what
  \<open>getStateAsync\<close> reads), the calls of \<open>setState\<close> in order, the log, the events the
  client emits to its observers, the calls made on the transport, and the reads of
  the state store whose promise has not been resolved yet.
\<close>

record world =
  previousNotifyTimestamp :: jsval
  nsSocket :: "socket option"
  states :: "string \<Rightarrow> setState_arg option"
  setState_calls :: "(string \<times> setState_arg) list"
  logged :: "log_entry list"
  connection_events :: "bool list"
  socket_calls :: "socket_call list"
  pending :: "string list"

definition setState :: "string \<Rightarrow> setState_arg \<Rightarrow> world \<Rightarrow> world" where
  "setState k a w = w\<lparr>states := (states w)(k \<mapsto> a), setState_calls := setState_calls w @ [(k, a)]\<rparr>"

definition log_debug :: "string \<Rightarrow> world \<Rightarrow> world" where
  "log_debug m w = w\<lparr>logged := logged w @ [Debug m]\<rparr>"

definition log_error :: "string \<Rightarrow> world \<Rightarrow> world" where
  "log_error m w = w\<lparr>logged := logged w @ [Error m]\<rparr>"

section \<open>Payloads\<close>

text \<open>
  The payload of an event is an object, \<open>undefined\<close> or \<open>null\<close>. Reading a property of
  \<open>undefined\<close> or \<open>null\<close> throws a \<open>TypeError\<close>, and both are falsy.
\<close>

datatype 'a payload = Undefined | Null | Object 'a

text \<open>
  An object inside a payload that may be missing or \<open>null\<close> is an \<open>option\<close>: reading a
  property of \<open>None\<close> throws a \<open>TypeError\<close>, and \<open>None\<close> is falsy.
\<close>

text \<open>
  A treatment record: \<open>eventType\<close> is a string or absent, \<open>mills\<close> is a number (epoch
  milliseconds).
\<close>

record treatment =
  eventType :: "string option"
  mills :: int


record notification =
  timestamp :: jsval
  title :: "string option"
  message :: "string option"

record alarm =
  level :: jsval

record clear_alarm =
  clear :: jsval

record authorize_reply =
  read :: jsval

record pump_iob =
  bolusiob :: jsval

record pump_battery =
  percent :: jsval

record pump_status =
  bolusing :: jsval
  status :: jsval
  suspended :: jsval

record pump =
  clock :: jsval
  reservoir :: jsval
  iob :: "pump_iob option"
  battery :: "pump_battery option"
  pstatus :: "pump_status option"

record uploader =
  uploader_battery :: jsval

record device_status =
  device :: jsval
  pump :: "pump option"
  uploader :: "uploader option"

record sgv =
  sgv_mills :: jsval
  mgdl :: jsval
  scaled :: jsval
  direction :: jsval

record data_update =
  lastUpdated :: jsval
  devicestatus :: "device_status option list option"
  sgvs :: "sgv option list option"
  treatments :: "treatment option list option"
  food :: "treatment option list option"

section \<open>The platform\<close>

text \<open>
  What the code takes from its platform: the parser of \<open>new Date(string)\<close>, the parser
  of \<open>moment(string)\<close> (\<open>None\<close> is an invalid date), \<open>JSON.stringify\<close> on an object, and
  the time zone of the process, in which \<open>moment\<close> works: its standard UTC offset in
  minutes and the instants at which daylight saving time is in force.
\<close>

record env =
  Date_parse :: "string \<Rightarrow> int option"
  moment_parse :: "string \<Rightarrow> int option"
  JSON_stringify :: "data_update \<Rightarrow> string"
  std_offset :: int
  dst :: "int \<Rightarrow> bool"

text \<open>
  \<open>moment(t).utcOffset()\<close>, in minutes: daylight saving time adds one hour to the
  standard offset.
\<close>

definition utcOffset :: "env \<Rightarrow> int \<Rightarrow> int" where
  "utcOffset e t = std_offset e + (if dst e t then 60 else 0)"

text \<open>
  \<open>JSON.stringify\<close> of a payload: \<open>undefined\<close> for \<open>undefined\<close>, the string \<open>null\<close> for
  \<open>null\<close>.
\<close>

definition stringify :: "env \<Rightarrow> data_update payload \<Rightarrow> jsval" where
  "stringify e p =
     (case p of Undefined \<Rightarrow> JUndefined | Null \<Rightarrow> JStr ''null'' | Object d \<Rightarrow> JStr (JSON_stringify e d))"

definition timeClip :: "int \<Rightarrow> int option" where
  "timeClip n = (if \<bar>n\<bar> \<le> 8640000000000000 then Some n else None)"

text \<open>\<open>new Date(v).getTime()\<close>; \<open>None\<close> is \<open>NaN\<close>.\<close>

fun Date_getTime :: "env \<Rightarrow> jsval \<Rightarrow> int option" where
  "Date_getTime e JUndefined = None"
| "Date_getTime e JNull = Some 0"
| "Date_getTime e (JBool b) = Some (if b then 1 else 0)"
| "Date_getTime e (JNum n) = timeClip n"
| "Date_getTime e JNaN = None"
| "Date_getTime e (JStr s) = Date_parse e s"

fun number :: "int option \<Rightarrow> jsval" where
  "number None = JNaN"
| "number (Some n) = JNum n"

text \<open>\<open>moment(v)\<close> at the time \<open>now\<close>: the instant of a valid moment, \<open>None\<close> for an invalid one.\<close>

fun moment :: "env \<Rightarrow> int \<Rightarrow> jsval \<Rightarrow> int option" where
  "moment e now JUndefined = Some now"
| "moment e now JNull = None"
| "moment e now (JBool b) = None"
| "moment e now (JNum n) = timeClip n"
| "moment e now JNaN = None"
| "moment e now (JStr s) = moment_parse e s"

section \<open>Elapsed-time arithmetic\<close>

text \<open>
  The client computes ages with \<open>a.diff(b, unit)\<close> for \<open>a = moment(now)\<close> and
  \<open>b = moment(t)\<close>, two moments in local time; the library moment is not part of the
  repository. It divides the millisecond difference of the two instants by the length
  of the unit and rounds towards zero (its \<open>absFloor\<close>). For the unit \<open>days\<close> it first
  subtracts \<open>(b.utcOffset() - a.utcOffset()) * 60000\<close>, so that a day across a switch of
  daylight saving time counts as one day.
\<close>

definition absFloor :: "int \<Rightarrow> int \<Rightarrow> int" where
  "absFloor n d = (if n < 0 then - ((- n) div d) else n div d)"

definition diff_hours :: "int \<Rightarrow> int \<Rightarrow> int" where
  "diff_hours a b = absFloor (a - b) 3600000"

definition diff_days :: "env \<Rightarrow> int \<Rightarrow> int \<Rightarrow> int" where
  "diff_days e a b = absFloor (a - b - (utcOffset e b - utcOffset e a) * 60000) 86400000"

section \<open>Selection of the latest treatment\<close>

text \<open>The object \<open>treatmentInfo\<close> of lines 200 to 206.\<close>

record treatmentInfo =
  found :: bool
  age :: int
  days :: int
  hours :: int
  millis :: int

definition treatmentInfo0 :: treatmentInfo where
  "treatmentInfo0 = \<lparr>found = False, age = 0, days = 0, hours = 0, millis = 0\<rparr>"

text \<open>
  One pass of the \<open>forEach\<close> callback, lines 211 to 230: the state is \<open>prevDate\<close> and
  \<open>treatmentInfo\<close>; \<open>now\<close> is the reading of \<open>Date.now()\<close> on line 208.
\<close>

definition forEach_body :: "env \<Rightarrow> int \<Rightarrow> int \<times> treatmentInfo \<Rightarrow> treatment \<Rightarrow> int \<times> treatmentInfo" where
  "forEach_body e now st treatment =
     (let prevDate = fst st; info = snd st; treatmentDate = mills treatment in
      if treatmentDate > prevDate \<and> treatmentDate \<le> now then
        (let days' = diff_days e now treatmentDate;
             hours' = diff_hours now treatmentDate - days' * 24;
             age' = diff_hours now treatmentDate in
         (treatmentDate,
          if \<not> found info \<or> (age' \<ge> 0 \<and> age' < age info)
          then \<lparr>found = True, age = age', days = days', hours = hours', millis = treatmentDate\<rparr>
          else info))
      else (prevDate, info))"

text \<open>\<open>_getLatestTreatmentsInfo\<close>, lines 199 to 234.\<close>

definition getLatestTreatmentsInfo :: "env \<Rightarrow> int \<Rightarrow> treatment list \<Rightarrow> treatmentInfo" where
  "getLatestTreatmentsInfo e now treatments' =
     (if treatments' \<noteq> [] then snd (foldl (forEach_body e now) (0, treatmentInfo0) treatments')
      else treatmentInfo0)"

section \<open>Connection\<close>

text \<open>
  The object as the constructor leaves it, over the adapter's persisted states. The URL
  and the hash of the secret take no part in what follows and are left out.
\<close>

definition NightscoutClient :: "(string \<Rightarrow> setState_arg option) \<Rightarrow> world" where
  "NightscoutClient store =
     \<lparr>previousNotifyTimestamp = JNull, nsSocket = Some Socket, states = store,
      setState_calls = [], logged = [], connection_events = [], socket_calls = [],
      pending = []\<rparr>"

text \<open>
  A handler returns the exception it throws, if any, and the world as it has left it.
  The handlers of \<open>disconnect\<close> (lines 30 to 33) and \<open>connect\<close> (lines 35 to 50), the
  callback of \<open>authorize\<close> (lines 45 to 49) and \<open>close\<close> (lines 192 to 197):
\<close>

definition on_disconnect :: "world \<Rightarrow> error option \<times> world" where
  "on_disconnect w =
     (None, log_debug ''[CLIENT] own client disconnected''
              (w\<lparr>connection_events := connection_events w @ [False]\<rparr>))"

definition on_connect :: "world \<Rightarrow> error option \<times> world" where
  "on_connect w =
     (let w1 = w\<lparr>previousNotifyTimestamp := JNull\<rparr>;
          w2 = log_debug ''[CLIENT] own client connected'' w1;
          w3 = w2\<lparr>connection_events := connection_events w2 @ [True]\<rparr>
      in case nsSocket w3 of
           None \<Rightarrow> (Some TypeError, w3)
         | Some s \<Rightarrow> (None, w3\<lparr>socket_calls := socket_calls w3 @ [SocketEmitAuthorize]\<rparr>))"

definition on_authorize_reply :: "authorize_reply payload \<Rightarrow> world \<Rightarrow> error option \<times> world" where
  "on_authorize_reply data w =
     (case data of
        Undefined \<Rightarrow> (Some TypeError, w)
      | Null \<Rightarrow> (Some TypeError, w)
      | Object d \<Rightarrow> (None, if \<not> truthy (read d) then log_error ''Cannot authenticate'' w else w))"

definition close :: "world \<Rightarrow> error option \<times> world" where
  "close w =
     (case nsSocket w of
        Some s \<Rightarrow> (None, w\<lparr>socket_calls := socket_calls w @ [SocketClose], nsSocket := None\<rparr>)
      | None \<Rightarrow> (None, w))"

section \<open>Notifications and alarms\<close>

text \<open>A field in a template literal: an absent field reads \<open>undefined\<close>.\<close>

fun template :: "string option \<Rightarrow> string" where
  "template None = ''undefined''"
| "template (Some s) = s"

text \<open>The handler of \<open>notification\<close>, lines 54 to 67; \<open>now\<close> is \<open>Date.now()\<close> on line 65.\<close>

definition on_notification :: "env \<Rightarrow> int \<Rightarrow> notification payload \<Rightarrow> world \<Rightarrow> error option \<times> world" where
  "on_notification e now data w =
     (let w1 = log_debug ''[CLIENT] notification'' w in
      case data of
        Undefined \<Rightarrow> (None, w1)
      | Null \<Rightarrow> (None, w1)
      | Object d \<Rightarrow>
          if truthy (timestamp d) \<and> strict_eq (timestamp d) (previousNotifyTimestamp w1)
          then (None, w1)
          else
            (let w2 = (if truthy (timestamp d) then w1\<lparr>previousNotifyTimestamp := timestamp d\<rparr> else w1);
                 ts' = Date_getTime e (if truthy (timestamp d) then timestamp d else JUndefined)
             in (None, setState ''data.notification''
                   (StateObject \<lparr>ts = (if truthy (number ts') then number ts' else JNum now),
                                 ack = True,
                                 val = JStr (template (title d) @ '' '' @ template (message d))\<rparr>) w2)))"

text \<open>The handler of \<open>announcement\<close>, lines 69 and 70.\<close>

definition on_announcement :: "jsval \<Rightarrow> world \<Rightarrow> error option \<times> world" where
  "on_announcement data w = (None, log_debug ''[CLIENT] announcement'' w)"

text \<open>The value of \<open>data && data.level && data.level === n\<close>.\<close>

definition alarm_value :: "int \<Rightarrow> alarm payload \<Rightarrow> jsval" where
  "alarm_value n data =
     (case data of
        Undefined \<Rightarrow> JUndefined
      | Null \<Rightarrow> JNull
      | Object d \<Rightarrow> if truthy (level d) then JBool (strict_eq (level d) (JNum n)) else level d)"

text \<open>The handlers of \<open>alarm\<close> (lines 72 to 75) and \<open>urgent_alarm\<close> (lines 77 to 80).\<close>

definition on_alarm :: "alarm payload \<Rightarrow> world \<Rightarrow> error option \<times> world" where
  "on_alarm data w =
     (None, setState ''data.alarm'' (StateValue (alarm_value 1 data) True)
              (log_debug ''[CLIENT] alarm'' w))"

definition on_urgent_alarm :: "alarm payload \<Rightarrow> world \<Rightarrow> error option \<times> world" where
  "on_urgent_alarm data w =
     (None, setState ''data.urgentAlarm'' (StateValue (alarm_value 2 data) True)
              (log_debug ''[CLIENT] urgentAlarm'' w))"

text \<open>The handler of \<open>clear_alarm\<close>, lines 82 to 88: \<open>data.clear\<close> is read without a guard.\<close>

definition on_clear_alarm :: "clear_alarm payload \<Rightarrow> world \<Rightarrow> error option \<times> world" where
  "on_clear_alarm data w =
     (let w1 = log_debug ''[CLIENT] clear_alarm'' w in
      case data of
        Undefined \<Rightarrow> (Some TypeError, w1)
      | Null \<Rightarrow> (Some TypeError, w1)
      | Object d \<Rightarrow>
          if truthy (clear d)
          then (None, setState ''data.urgentAlarm'' (StateValue (JBool False) True)
                        (setState ''data.alarm'' (StateValue (JBool False) True) w1))
          else (None, w1))"

text \<open>The handler of \<open>retroUpdate\<close>, lines 188 to 190.\<close>

definition on_retroUpdate :: "jsval \<Rightarrow> world \<Rightarrow> error option \<times> world" where
  "on_retroUpdate retroData w = (None, log_debug ''[CLIENT] retroUpdate'' w)"

section \<open>Data updates\<close>

text \<open>\<open>String.prototype.includes\<close>: the second string occurs in the first.\<close>

fun js_includes :: "string \<Rightarrow> string \<Rightarrow> bool" where
  "js_includes [] sub = (sub = [])"
| "js_includes (c # cs) sub = (take (length sub) (c # cs) = sub \<or> js_includes cs sub)"

text \<open>
  \<open>Array.prototype.filter\<close> with a callback that reads a property of each element: a
  \<open>null\<close> element makes the callback throw, and the exception ends the filter.
\<close>

fun js_filter :: "('a \<Rightarrow> bool) \<Rightarrow> 'a option list \<Rightarrow> error + 'a list" where
  "js_filter p [] = Inr []"
| "js_filter p (None # xs) = Inl TypeError"
| "js_filter p (Some x # xs) =
     (case js_filter p xs of Inl err \<Rightarrow> Inl err | Inr ys \<Rightarrow> Inr (if p x then x # ys else ys))"

definition isSiteChange :: "treatment \<Rightarrow> bool" where
  "isSiteChange treatment =
     (case eventType treatment of
        None \<Rightarrow> False
      | Some t \<Rightarrow> t \<noteq> [] \<and> js_includes t ''Site Change'')"

definition isSensorChange :: "treatment \<Rightarrow> bool" where
  "isSensorChange treatment =
     (case eventType treatment of
        None \<Rightarrow> False
      | Some t \<Rightarrow> t \<noteq> [] \<and> (js_includes t ''Sensor Start'' \<or> js_includes t ''Sensor Change''))"

definition timed :: "jsval \<Rightarrow> jsval \<Rightarrow> setState_arg" where
  "timed t v = StateObject \<lparr>ts = t, ack = True, val = v\<rparr>"

text \<open>Lines 106 to 116: the pump of the last device status.\<close>

definition update_pump :: "env \<Rightarrow> jsval \<Rightarrow> pump \<Rightarrow> world \<Rightarrow> world" where
  "update_pump e ts' p w =
     (let a = setState ''data.clock'' (timed ts' (number (Date_getTime e (clock p)))) w;
          b = setState ''data.reservoir'' (timed ts' (reservoir p)) a;
          c = (case iob p of None \<Rightarrow> b
               | Some i \<Rightarrow> setState ''data.bolusiob'' (timed ts' (bolusiob i)) b);
          d = (case battery p of None \<Rightarrow> c
               | Some i \<Rightarrow> setState ''data.pumpBattery'' (timed ts' (percent i)) c)
      in case pstatus p of
           None \<Rightarrow> d
         | Some s \<Rightarrow>
             setState ''data.suspended'' (timed ts' (suspended s))
               (setState ''data.status'' (timed ts' (status s))
                  (setState ''data.bolusing'' (timed ts' (bolusing s)) d)))"

text \<open>
  Lines 101 to 120: the last device status. (\<open>pop()\<close> also removes it from the payload,
  which is not read again.)
\<close>

definition update_devicestatus :: "env \<Rightarrow> jsval \<Rightarrow> data_update \<Rightarrow> world \<Rightarrow> error option \<times> world" where
  "update_devicestatus e ts' dataUpdate w =
     (case devicestatus dataUpdate of
        None \<Rightarrow> (None, w)
      | Some [] \<Rightarrow> (None, w)
      | Some (x # xs) \<Rightarrow>
          (case last (x # xs) of
             None \<Rightarrow> (Some TypeError, w)
           | Some st \<Rightarrow>
               (let w1 = setState ''data.device'' (StateValue (device st) True) w;
                    w2 = (case pump st of None \<Rightarrow> w1 | Some p \<Rightarrow> update_pump e ts' p w1)
                in case uploader st of
                     None \<Rightarrow> (None, w2)
                   | Some u \<Rightarrow> (None, setState ''data.uploaderBattery'' (StateValue (uploader_battery u) True) w2))))"

text \<open>Lines 122 to 127: the last glucose reading.\<close>

definition update_sgvs :: "data_update \<Rightarrow> world \<Rightarrow> error option \<times> world" where
  "update_sgvs dataUpdate w =
     (case sgvs dataUpdate of
        None \<Rightarrow> (None, w)
      | Some [] \<Rightarrow> (None, w)
      | Some (x # xs) \<Rightarrow>
          (case last (x # xs) of
             None \<Rightarrow> (Some TypeError, w)
           | Some r \<Rightarrow>
               (None, setState ''data.mgdlDirection'' (timed (sgv_mills r) (direction r))
                        (setState ''data.mgdlScaled'' (timed (sgv_mills r) (scaled r))
                           (setState ''data.mgdl'' (timed (sgv_mills r) (mgdl r)) w)))))"

text \<open>The four facts of a found treatment, for \<open>data.cage\<close> and \<open>data.sage\<close>.\<close>

definition emit_age :: "env \<Rightarrow> int \<Rightarrow> string \<Rightarrow> treatmentInfo \<Rightarrow> world \<Rightarrow> world" where
  "emit_age e now baseId info w =
     setState (baseId @ ''.changed'')
       (StateObject \<lparr>ts = JNum (millis info), ack = True,
                     val = number (Date_getTime e (JNum (millis info)))\<rparr>)
       (setState (baseId @ ''.hours'') (timed (JNum now) (JNum (hours info)))
          (setState (baseId @ ''.days'') (timed (JNum now) (JNum (days info)))
             (setState (baseId @ ''.age'') (timed (JNum now) (JNum (age info))) w)))"

text \<open>
  Lines 129 to 166. The result carries \<open>siteChangeUpdated\<close> and \<open>sensorUpdated\<close>.
  \<open>now\<close> is the handler's reading of the clock, \<open>now1\<close> and \<open>now2\<close> are the readings of
  the two calls of \<open>_getLatestTreatmentsInfo\<close>.
\<close>

definition update_treatments ::
  "env \<Rightarrow> int \<Rightarrow> int \<Rightarrow> int \<Rightarrow> data_update \<Rightarrow> world \<Rightarrow> error option \<times> (bool \<times> bool) \<times> world" where
  "update_treatments e now now1 now2 dataUpdate w =
     (case treatments dataUpdate of
        None \<Rightarrow> (None, (False, False), w)
      | Some [] \<Rightarrow> (None, (False, False), w)
      | Some (x # xs) \<Rightarrow>
          (case js_filter isSiteChange (x # xs) of
             Inl err \<Rightarrow> (Some err, (False, False), w)
           | Inr sitechangeTreatments \<Rightarrow>
               (let cannulaInfo = getLatestTreatmentsInfo e now1 sitechangeTreatments;
                    siteChangeUpdated = found cannulaInfo;
                    w1 = (if found cannulaInfo then emit_age e now ''data.cage'' cannulaInfo w else w)
                in case js_filter isSensorChange (x # xs) of
                     Inl err \<Rightarrow> (Some err, (siteChangeUpdated, False), w1)
                   | Inr sensorTreatments \<Rightarrow>
                       (let sensorInfo = getLatestTreatmentsInfo e now2 sensorTreatments;
                            w2 = (if found sensorInfo then emit_age e now ''data.sage'' sensorInfo w1 else w1)
                        in (None, (siteChangeUpdated, found sensorInfo), w2)))))"

text \<open>Lines 168 to 172: the food records are filtered and dropped.\<close>

definition update_food :: "data_update \<Rightarrow> error option" where
  "update_food dataUpdate =
     (case food dataUpdate of
        None \<Rightarrow> None
      | Some [] \<Rightarrow> None
      | Some (x # xs) \<Rightarrow>
          (case js_filter isSiteChange (x # xs) of Inl err \<Rightarrow> Some err | Inr ys \<Rightarrow> None))"

text \<open>
  \<open>_recalcAges\<close>, lines 236 to 251, starts a read of the state store and returns; the
  callback of the promise (\<open>recalcAges_then\<close>) runs later, with the state that was read
  and its own reading \<open>now\<close> of the clock.
\<close>

definition recalcAges :: "string \<Rightarrow> world \<Rightarrow> world" where
  "recalcAges baseId w = w\<lparr>pending := pending w @ [baseId]\<rparr>"

definition recalcAges_then :: "env \<Rightarrow> int \<Rightarrow> string \<Rightarrow> setState_arg option \<Rightarrow> world \<Rightarrow> world" where
  "recalcAges_then e now baseId st w =
     (case st of
        None \<Rightarrow> w
      | Some s \<Rightarrow>
          (let b = moment e now (val_of s);
               days' = map_option (diff_days e now) b;
               hours' = map_option (\<lambda>t. diff_hours now t - diff_days e now t * 24) b;
               age' = map_option (diff_hours now) b
           in setState (baseId @ ''.hours'') (timed (JNum now) (number hours'))
                (setState (baseId @ ''.days'') (timed (JNum now) (number days'))
                   (setState (baseId @ ''.age'') (timed (JNum now) (number age')) w))))"

text \<open>The oldest pending read is answered from the store at the time \<open>now\<close>.\<close>

definition resolve_pending :: "env \<Rightarrow> int \<Rightarrow> world \<Rightarrow> world" where
  "resolve_pending e now w =
     (case pending w of
        [] \<Rightarrow> w
      | baseId # rest \<Rightarrow>
          recalcAges_then e now baseId (states w (baseId @ ''.changed'')) (w\<lparr>pending := rest\<rparr>))"

text \<open>
  Sequencing inside the \<open>try\<close> block: an exception of the first part ends the block, and
  what the first part has written stays written.
\<close>

definition and_then ::
  "error option \<times> world \<Rightarrow> (world \<Rightarrow> error option \<times> world) \<Rightarrow> error option \<times> world" where
  "and_then r f = (case r of (Some err, w) \<Rightarrow> (Some err, w) | (None, w) \<Rightarrow> f w)"

text \<open>Lines 174 to 181, on \<open>siteChangeUpdated\<close> and \<open>sensorUpdated\<close>.\<close>

definition recalc_missing :: "bool \<times> bool \<Rightarrow> world \<Rightarrow> world" where
  "recalc_missing flags w =
     (let siteChangeUpdated = fst flags; sensorUpdated = snd flags;
          w1 = (if \<not> siteChangeUpdated
                then recalcAges ''data.cage''
                       (log_debug ''[CLIENT] No cannula treatments found. Recalculate age'' w)
                else w)
      in if \<not> sensorUpdated
         then recalcAges ''data.sage''
                (log_debug ''[CLIENT] No sensor treatments found. Recalculate age'' w1)
         else w1)"

text \<open>The body of the \<open>try\<close> block, lines 93 to 182.\<close>

definition dataUpdate_try ::
  "env \<Rightarrow> int \<Rightarrow> int \<Rightarrow> int \<Rightarrow> data_update payload \<Rightarrow> world \<Rightarrow> error option \<times> world" where
  "dataUpdate_try e now now1 now2 dataUpdate w =
     (let w1 = setState ''data.rawUpdate'' (StateValue (stringify e dataUpdate) True) w in
      case dataUpdate of
        Undefined \<Rightarrow> (None, w1)
      | Null \<Rightarrow> (None, w1)
      | Object d \<Rightarrow>
          (let ts' = (if truthy (lastUpdated d) then lastUpdated d else JNum now);
               w2 = (if truthy (lastUpdated d)
                     then setState ''data.lastUpdate'' (StateValue (lastUpdated d) True) w1 else w1)
           in and_then (update_devicestatus e ts' d w2) (\<lambda>w3.
              and_then (update_sgvs d w3) (\<lambda>w4.
              (let r = update_treatments e now now1 now2 d w4 in
               and_then (fst r, snd (snd r)) (\<lambda>w5.
               and_then (update_food d, w5) (\<lambda>w6.
               (None, recalc_missing (fst (snd r)) w6))))))))"

text \<open>The handler of \<open>dataUpdate\<close>, lines 90 to 186: the \<open>try\<close> block and its \<open>catch\<close>.\<close>

definition on_dataUpdate ::
  "env \<Rightarrow> int \<Rightarrow> int \<Rightarrow> int \<Rightarrow> data_update payload \<Rightarrow> world \<Rightarrow> error option \<times> world" where
  "on_dataUpdate e now now1 now2 dataUpdate w =
     (case dataUpdate_try e now now1 now2 dataUpdate (log_debug ''[CLIENT] dataUpdate'' w) of
        (Some err, w') \<Rightarrow> (None, log_error ''[CLIENT] Parse Error'' w')
      | (None, w') \<Rightarrow> (None, w'))"

section \<open>Event dispatch\<close>

datatype event =
    Connect
  | Disconnect
  | Notification "notification payload"
  | Announcement jsval
  | Alarm "alarm payload"
  | UrgentAlarm "alarm payload"
  | ClearAlarm "clear_alarm payload"
  | DataUpdate "data_update payload" int int
  | RetroUpdate jsval

text \<open>
  An event arrives at the time \<open>now\<close>; a data update carries the two later readings of
  the clock as well.
\<close>

fun dispatch :: "env \<Rightarrow> int \<Rightarrow> event \<Rightarrow> world \<Rightarrow> error option \<times> world" where
  "dispatch e now Connect w = on_connect w"
| "dispatch e now Disconnect w = on_disconnect w"
| "dispatch e now (Notification data) w = on_notification e now data w"
| "dispatch e now (Announcement data) w = on_announcement data w"
| "dispatch e now (Alarm data) w = on_alarm data w"
| "dispatch e now (UrgentAlarm data) w = on_urgent_alarm data w"
| "dispatch e now (ClearAlarm data) w = on_clear_alarm data w"
| "dispatch e now (DataUpdate data now1 now2) w = on_dataUpdate e now now1 now2 data w"
| "dispatch e now (RetroUpdate data) w = on_retroUpdate data w"

text \<open>
  The transport delivers the events one at a time; an exception that leaves a handler
  reaches the transport's dispatch, and the events behind it are not delivered by
  this run.
\<close>

fun deliver :: "env \<Rightarrow> (int \<times> event) list \<Rightarrow> world \<Rightarrow> error option \<times> world" where
  "deliver e [] w = (None, w)"
| "deliver e ((now, ev) # evs) w =
     (case dispatch e now ev w of
        (Some err, w') \<Rightarrow> (Some err, w')
      | (None, w') \<Rightarrow> deliver e evs w')"

section \<open>Reference notions for the selection\<close>

text \<open>The treatments that are not in the future and have a positive timestamp.\<close>

definition candidates :: "int \<Rightarrow> treatment list \<Rightarrow> treatment list" where
  "candidates now trs = filter (\<lambda>t. 0 < mills t \<and> mills t \<le> now) trs"


text \<open>Age, days and hours computed from one timestamp, as lines 217 to 220 and 242 to 245 do.\<close>

definition ageInfo :: "env \<Rightarrow> int \<Rightarrow> int \<Rightarrow> treatmentInfo" where
  "ageInfo e now m =
     \<lparr>found = True, age = diff_hours now m, days = diff_days e now m,
      hours = diff_hours now m - diff_days e now m * 24, millis = m\<rparr>"


text \<open>
  The invariant of the loop: the age that \<open>treatmentInfo\<close> holds is the age of \<open>prevDate\<close>
  in whole hours.
\<close>

definition consistent :: "int \<Rightarrow> int \<Rightarrow> treatmentInfo \<Rightarrow> bool" where
  "consistent now prev info \<longleftrightarrow>
     0 \<le> prev \<and>
     (if found info then 0 < prev \<and> prev \<le> now \<and> age info = diff_hours now prev else prev = 0)"


section \<open>Fixtures\<close>

text \<open>
  A platform whose two date parsers reject every string, in a zone without daylight
  saving time (UTC).
\<close>

definition env0 :: env where
  "env0 =
     \<lparr>Date_parse = (\<lambda>s. None), moment_parse = (\<lambda>s. None), JSON_stringify = (\<lambda>p. ''{}''),
      std_offset = 0, dst = (\<lambda>t. False)\<rparr>"


section \<open>Reference notions for the data update\<close>

text \<open>
  The shape of a payload that the handler decodes without an exception: the last device
  status and the last reading, every treatment and every food record are objects.
\<close>

definition last_present :: "'a option list option \<Rightarrow> bool" where
  "last_present xs = (case xs of None \<Rightarrow> True | Some [] \<Rightarrow> True | Some (y # ys) \<Rightarrow> last (y # ys) \<noteq> None)"

definition all_present :: "'a option list option \<Rightarrow> bool" where
  "all_present xs = (case xs of None \<Rightarrow> True | Some ys \<Rightarrow> None \<notin> set ys)"

definition shape_ok :: "data_update \<Rightarrow> bool" where
  "shape_ok d \<longleftrightarrow>
     last_present (devicestatus d) \<and> last_present (sgvs d) \<and>
     all_present (treatments d) \<and> all_present (food d)"

text \<open>
  A qualifying treatment of a category: its event type matches and its timestamp is
  positive and not after now.
\<close>

definition qualifying :: "(treatment \<Rightarrow> bool) \<Rightarrow> int \<Rightarrow> data_update \<Rightarrow> bool" where
  "qualifying p now d =
     (case treatments d of
        None \<Rightarrow> False
      | Some xs \<Rightarrow> list_ex (\<lambda>x. case x of None \<Rightarrow> False
                                 | Some t \<Rightarrow> p t \<and> 0 < mills t \<and> mills t \<le> now) xs)"

text \<open>
  From \<open>w\<close> to \<open>w'\<close> the calls of \<open>setState\<close> are extended by calls on keys of \<open>K\<close>, and
  the store is the same outside \<open>K\<close>.
\<close>

definition writes :: "string set \<Rightarrow> world \<Rightarrow> world \<Rightarrow> bool" where
  "writes K w w' \<longleftrightarrow>
     (\<exists>xs. setState_calls w' = setState_calls w @ xs \<and> fst ` set xs \<subseteq> K) \<and>
     (\<forall>k. k \<notin> K \<longrightarrow> states w' k = states w k)"

definition device_keys :: "string set" where
  "device_keys =
     {''data.device'', ''data.clock'', ''data.reservoir'', ''data.bolusiob'', ''data.pumpBattery'',
      ''data.bolusing'', ''data.status'', ''data.suspended'', ''data.uploaderBattery''}"

definition sgv_keys :: "string set" where
  "sgv_keys = {''data.mgdl'', ''data.mgdlScaled'', ''data.mgdlDirection''}"

definition age_keys :: "string \<Rightarrow> string set" where
  "age_keys baseId = {baseId @ ''.age'', baseId @ ''.days'', baseId @ ''.hours'', baseId @ ''.changed''}"

text \<open>The keys that the handler of a data update can write for the payload \<open>d\<close>.\<close>

definition update_keys :: "data_update \<Rightarrow> int \<Rightarrow> int \<Rightarrow> string set" where
  "update_keys d now1 now2 =
     {''data.rawUpdate'', ''data.lastUpdate''} \<union>
     (if devicestatus d = None \<or> devicestatus d = Some [] then {} else device_keys) \<union>
     sgv_keys \<union>
     (if qualifying isSiteChange now1 d then age_keys ''data.cage'' else {}) \<union>
     (if qualifying isSensorChange now2 d then age_keys ''data.sage'' else {})"

text \<open>
  A data update with no device status and one sensor start, and a store that holds the
  time of the last site change.
\<close>

definition update0 :: data_update where
  "update0 =
     \<lparr>lastUpdated = JUndefined, devicestatus = Some [], sgvs = None,
      treatments = Some [Some \<lparr>eventType = Some ''Sensor Start'', mills = 1699990000000\<rparr>],
      food = None\<rparr>"

text \<open>
  A data update with one site change and a food sequence that holds \<open>null\<close>.
\<close>

definition update_null_food :: data_update where
  "update_null_food =
     \<lparr>lastUpdated = JUndefined, devicestatus = None, sgvs = None,
      treatments = Some [Some \<lparr>eventType = Some ''Site Change'', mills = 1699990000000\<rparr>],
      food = Some [None]\<rparr>"

definition store0 :: "string \<Rightarrow> setState_arg option" where
  "store0 = [''data.cage.changed'' \<mapsto>
               StateObject \<lparr>ts = JNum 1699892000000, ack = True, val = JNum 1699892000000\<rparr>]"

text \<open>A store that holds the time of the last sensor change.\<close>

definition store1 :: "string \<Rightarrow> setState_arg option" where
  "store1 = [''data.sage.changed'' \<mapsto>
               StateObject \<lparr>ts = JNum 1699892000000, ack = True, val = JNum 1699892000000\<rparr>]"

section \<open>Reference notions for the notifications\<close>

text \<open>The fact that the handler writes for the payload \<open>d\<close> at the time \<open>now\<close>.\<close>

definition notification_fact :: "env \<Rightarrow> int \<Rightarrow> notification \<Rightarrow> string \<times> setState_arg" where
  "notification_fact e now d =
     (''data.notification'',
      StateObject
        \<lparr>ts = JNum (case Date_getTime e (if truthy (timestamp d) then timestamp d else JUndefined) of
                      None \<Rightarrow> now
                    | Some t \<Rightarrow> if t \<noteq> 0 then t else now),
         ack = True,
         val = JStr (template (title d) @ '' '' @ template (message d))\<rparr>)"

text \<open>Two notifications and an empty store.\<close>

definition notify0 :: notification where
  "notify0 = \<lparr>timestamp = JNum 1700000000000, title = Some ''Urgent'', message = Some ''Low''\<rparr>"

definition notify1 :: notification where
  "notify1 = \<lparr>timestamp = JUndefined, title = Some ''Check'', message = None\<rparr>"

section \<open>Properties of the elapsed-time arithmetic and of the selection\<close>

lemma absFloor_nonneg: "0 \<le> n \<Longrightarrow> absFloor n d = n div d"
  by (simp add: absFloor_def)

lemma diff_hours_nonneg: "b \<le> a \<Longrightarrow> 0 \<le> diff_hours a b"
  by (simp add: diff_hours_def absFloor_nonneg pos_imp_zdiv_nonneg_iff)

lemma diff_hours_mono: "b \<le> b' \<Longrightarrow> b' \<le> a \<Longrightarrow> diff_hours a b' \<le> diff_hours a b"
  by (simp add: diff_hours_def absFloor_nonneg zdiv_mono1)


lemma forEach_body_reject:
  "\<not> (mills t > prev \<and> mills t \<le> now) \<Longrightarrow> forEach_body e now (prev, info) t = (prev, info)"
  by (auto simp add: forEach_body_def Let_def)

lemma forEach_body_accept:
  "mills t > prev \<Longrightarrow> mills t \<le> now \<Longrightarrow>
   forEach_body e now (prev, info) t =
     (mills t, if \<not> found info \<or> (diff_hours now (mills t) \<ge> 0 \<and> diff_hours now (mills t) < age info)
               then ageInfo e now (mills t) else info)"
  by (simp add: forEach_body_def ageInfo_def Let_def)

lemma consistent_step:
  assumes "consistent now prev info"
  shows "consistent now (fst (forEach_body e now (prev, info) t)) (snd (forEach_body e now (prev, info) t))"
proof (cases "mills t > prev \<and> mills t \<le> now")
  case False
  then show ?thesis using assms by (simp add: forEach_body_reject)
next
  case True
  then have gt: "mills t > prev" and le: "mills t \<le> now" by simp_all
  have p: "0 \<le> prev" using assms by (simp add: consistent_def)
  show ?thesis
  proof (cases "\<not> found info \<or> (diff_hours now (mills t) \<ge> 0 \<and> diff_hours now (mills t) < age info)")
    case True
    then show ?thesis using gt le p
      by (simp add: forEach_body_accept consistent_def ageInfo_def)
  next
    case False
    then have f: "found info" and n: "\<not> diff_hours now (mills t) < age info"
      using diff_hours_nonneg [OF le] by auto
    have a: "age info = diff_hours now prev" "prev \<le> now"
      using assms f by (simp_all add: consistent_def)
    have "diff_hours now (mills t) \<le> diff_hours now prev"
      using diff_hours_mono [of prev "mills t" now] gt le by simp
    with n a have eq: "diff_hours now (mills t) = diff_hours now prev" by simp
    with a f False gt le p show ?thesis
      by (simp add: forEach_body_accept consistent_def)
  qed
qed



lemma step_found:
  assumes "consistent now prev info"
  shows "found (snd (forEach_body e now (prev, info) t)) \<longleftrightarrow>
           found info \<or> (0 < mills t \<and> mills t \<le> now)"
proof (cases "mills t > prev \<and> mills t \<le> now")
  case True
  moreover have "0 \<le> prev" using assms by (simp add: consistent_def)
  ultimately show ?thesis by (simp add: forEach_body_accept ageInfo_def)
next
  case False
  moreover have "\<not> found info \<Longrightarrow> prev = 0" using assms by (simp add: consistent_def)
  ultimately show ?thesis by (auto simp add: forEach_body_reject)
qed



lemma foldl_found:
  "consistent now prev info \<Longrightarrow>
   found (snd (foldl (forEach_body e now) (prev, info) trs)) \<longleftrightarrow>
     found info \<or> candidates now trs \<noteq> []"
proof (induction trs arbitrary: prev info)
  case Nil
  then show ?case by (simp add: candidates_def)
next
  case (Cons t trs)
  let ?s = "forEach_body e now (prev, info) t"
  have c: "consistent now (fst ?s) (snd ?s)" using Cons.prems by (rule consistent_step)
  show ?case using Cons.IH [OF c] step_found [OF Cons.prems, of e t]
    by (auto simp add: candidates_def)
qed




lemma consistent0: "consistent now 0 treatmentInfo0"
  by (simp add: consistent_def treatmentInfo0_def)

lemma getLatest_unfold:
  "getLatestTreatmentsInfo e now trs = snd (foldl (forEach_body e now) (0, treatmentInfo0) trs)"
  by (simp add: getLatestTreatmentsInfo_def)

lemma getLatest_found:
  "found (getLatestTreatmentsInfo e now trs) \<longleftrightarrow> candidates now trs \<noteq> []"
  using foldl_found [where prev = 0 and info = treatmentInfo0 and now = now and e = e and trs = trs,
      OF consistent0]
  by (simp add: getLatest_unfold treatmentInfo0_def)




subsection \<open>The winner of the selection\<close>





subsection \<open>The selection against the reference function\<close>











subsection \<open>The recovery path\<close>

lemma setState_calls_setState [simp]:
  "setState_calls (setState k a w) = setState_calls w @ [(k, a)]"
  by (simp add: setState_def)

lemma states_setState [simp]: "states (setState k a w) = (states w)(k \<mapsto> a)"
  by (simp add: setState_def)

lemma pending_setState [simp]: "pending (setState k a w) = pending w"
  by (simp add: setState_def)

lemma logged_setState [simp]: "logged (setState k a w) = logged w"
  by (simp add: setState_def)

lemma previousNotifyTimestamp_setState [simp]:
  "previousNotifyTimestamp (setState k a w) = previousNotifyTimestamp w"
  by (simp add: setState_def)

lemma recalcAges_then_None [simp]: "recalcAges_then e now baseId None w = w"
  by (simp add: recalcAges_then_def)

lemma recalcAges_then_calls:
  "setState_calls (recalcAges_then e now baseId (Some s) w) =
     setState_calls w @
       [(baseId @ ''.age'', timed (JNum now) (number (map_option (diff_hours now) (moment e now (val_of s))))),
        (baseId @ ''.days'', timed (JNum now) (number (map_option (diff_days e now) (moment e now (val_of s))))),
        (baseId @ ''.hours'', timed (JNum now)
           (number (map_option (\<lambda>t. diff_hours now t - diff_days e now t * 24) (moment e now (val_of s)))))]"
  by (simp add: recalcAges_then_def Let_def)

lemma recalcAges_then_changed:
  "states (recalcAges_then e now baseId st w) (baseId @ ''.changed'') = states w (baseId @ ''.changed'')"
  by (cases st) (simp_all add: recalcAges_then_def Let_def)

lemma recalcAges_then_pending [simp]:
  "pending (recalcAges_then e now baseId st w) = pending w"
  by (cases st) (simp_all add: recalcAges_then_def Let_def)







subsection \<open>Decoding a data update\<close>

lemma js_filter_Inr: "None \<notin> set xs \<Longrightarrow> js_filter p xs = Inr (filter p (map the xs))"
proof (induction xs)
  case Nil
  then show ?case by simp
next
  case (Cons x xs)
  then show ?case by (cases x) auto
qed

lemma js_filter_Inl: "None \<in> set xs \<Longrightarrow> js_filter p xs = Inl TypeError"
proof (induction xs)
  case Nil
  then show ?case by simp
next
  case (Cons x xs)
  then show ?case by (cases x) (auto split: sum.splits)
qed

lemma js_filter_cases:
  "js_filter p xs = (if None \<in> set xs then Inl TypeError else Inr (filter p (map the xs)))"
  by (simp add: js_filter_Inr js_filter_Inl)

lemma update_devicestatus_fst:
  "fst (update_devicestatus e t d w) = (if last_present (devicestatus d) then None else Some TypeError)"
  by (simp add: update_devicestatus_def last_present_def Let_def split: option.splits list.splits)

lemma update_sgvs_fst:
  "fst (update_sgvs d w) = (if last_present (sgvs d) then None else Some TypeError)"
  by (simp add: update_sgvs_def last_present_def split: option.splits list.splits)

lemma update_treatments_fst:
  "fst (update_treatments e now now1 now2 d w) =
     (if all_present (treatments d) then None else Some TypeError)"
  by (simp add: update_treatments_def all_present_def js_filter_cases Let_def
      split: option.splits list.splits)

lemma update_food_eq:
  "update_food d = (if all_present (food d) then None else Some TypeError)"
  by (simp add: update_food_def all_present_def js_filter_cases split: option.splits list.splits)

lemma found_filter:
  assumes "None \<notin> set xs"
  shows "found (getLatestTreatmentsInfo e now (filter p (map the xs))) \<longleftrightarrow>
           list_ex (\<lambda>x. case x of None \<Rightarrow> False | Some t \<Rightarrow> p t \<and> 0 < mills t \<and> mills t \<le> now) xs"
proof -
  have "candidates now (filter p (map the xs)) \<noteq> [] \<longleftrightarrow>
          (\<exists>t \<in> set (map the xs). p t \<and> 0 < mills t \<and> mills t \<le> now)"
    by (auto simp add: candidates_def filter_empty_conv)
  also have "\<dots> \<longleftrightarrow> (\<exists>x \<in> set xs. case x of None \<Rightarrow> False | Some t \<Rightarrow> p t \<and> 0 < mills t \<and> mills t \<le> now)"
  proof
    assume "\<exists>t \<in> set (map the xs). p t \<and> 0 < mills t \<and> mills t \<le> now"
    then obtain x where x: "x \<in> set xs" "p (the x) \<and> 0 < mills (the x) \<and> mills (the x) \<le> now"
      by auto
    with assms obtain t where "x = Some t" by (cases x) auto
    with x show "\<exists>x \<in> set xs. case x of None \<Rightarrow> False | Some t \<Rightarrow> p t \<and> 0 < mills t \<and> mills t \<le> now"
      by force
  next
    assume "\<exists>x \<in> set xs. case x of None \<Rightarrow> False | Some t \<Rightarrow> p t \<and> 0 < mills t \<and> mills t \<le> now"
    then obtain x where x: "x \<in> set xs"
      "case x of None \<Rightarrow> False | Some t \<Rightarrow> p t \<and> 0 < mills t \<and> mills t \<le> now" by blast
    from x(2) obtain t where "x = Some t" "p t \<and> 0 < mills t \<and> mills t \<le> now" by (cases x) auto
    with x(1) show "\<exists>t \<in> set (map the xs). p t \<and> 0 < mills t \<and> mills t \<le> now" by force
  qed
  finally show ?thesis by (simp add: getLatest_found list_ex_iff)
qed

lemma update_treatments_flags:
  assumes "all_present (treatments d)"
  shows "fst (snd (update_treatments e now now1 now2 d w)) =
           (qualifying isSiteChange now1 d, qualifying isSensorChange now2 d)"
proof (cases "treatments d")
  case None
  then show ?thesis by (simp add: update_treatments_def qualifying_def)
next
  case (Some xs)
  then have n: "None \<notin> set xs" using assms by (simp add: all_present_def)
  show ?thesis
  proof (cases xs)
    case Nil
    then show ?thesis using Some by (simp add: update_treatments_def qualifying_def)
  next
    case (Cons y ys)
    have "js_filter isSiteChange xs = Inr (filter isSiteChange (map the xs))"
      and "js_filter isSensorChange xs = Inr (filter isSensorChange (map the xs))"
      using n by (rule js_filter_Inr)+
    then have "js_filter isSiteChange (y # ys) = Inr (filter isSiteChange (map the xs))"
      and "js_filter isSensorChange (y # ys) = Inr (filter isSensorChange (map the xs))"
      unfolding Cons by this+
    then show ?thesis
      using found_filter [OF n, of e now1 isSiteChange] found_filter [OF n, of e now2 isSensorChange] Some Cons
      by (simp add: update_treatments_def qualifying_def Let_def)
  qed
qed

lemma writesI:
  "setState_calls w' = setState_calls w @ xs \<Longrightarrow> fst ` set xs \<subseteq> K \<Longrightarrow>
   (\<And>k. k \<notin> K \<Longrightarrow> states w' k = states w k) \<Longrightarrow> writes K w w'"
  unfolding writes_def by blast

lemma writesD:
  assumes "writes K w w'"
  shows "\<exists>xs. setState_calls w' = setState_calls w @ xs \<and> fst ` set xs \<subseteq> K"
    and "k \<notin> K \<Longrightarrow> states w' k = states w k"
  using assms unfolding writes_def by simp_all

lemma writes_refl: "writes K w w"
  by (rule writesI [of _ _ "[]"]) simp_all

lemma writes_mono:
  assumes "writes K w w'" "K \<subseteq> K'"
  shows "writes K' w w'"
proof -
  from writesD(1) [OF assms(1)]
  obtain xs where x: "setState_calls w' = setState_calls w @ xs" "fst ` set xs \<subseteq> K"
    by (elim exE conjE)
  show ?thesis
  proof (rule writesI [OF x(1)])
    show "fst ` set xs \<subseteq> K'" using x(2) assms(2) by (rule subset_trans)
    fix k assume "k \<notin> K'"
    then have "k \<notin> K" using assms(2) by (meson subsetD)
    then show "states w' k = states w k" by (rule writesD(2) [OF assms(1)])
  qed
qed

lemma writes_trans:
  assumes "writes K w w1" "writes K w1 w2"
  shows "writes K w w2"
proof -
  from writesD(1) [OF assms(1)]
  obtain xs where x: "setState_calls w1 = setState_calls w @ xs" "fst ` set xs \<subseteq> K"
    by (elim exE conjE)
  from writesD(1) [OF assms(2)]
  obtain ys where y: "setState_calls w2 = setState_calls w1 @ ys" "fst ` set ys \<subseteq> K"
    by (elim exE conjE)
  show ?thesis
  proof (rule writesI [of _ _ "xs @ ys"])
    show "setState_calls w2 = setState_calls w @ xs @ ys" by (simp add: x(1) y(1))
    show "fst ` set (xs @ ys) \<subseteq> K" using x(2) y(2) by (simp add: image_Un)
    fix k assume "k \<notin> K"
    then show "states w2 k = states w k"
      by (simp add: writesD(2) [OF assms(1)] writesD(2) [OF assms(2)])
  qed
qed

lemma writes_setState_self: "writes {k} w (setState k a w)"
  by (rule writesI [of _ _ "[(k, a)]"]) (simp_all add: setState_def)

lemma writes_setState:
  assumes "k \<in> K" "writes K w w'"
  shows "writes K w (setState k a w')"
proof -
  have "{k} \<subseteq> K" using assms(1) by simp
  with writes_setState_self [of k w' a] have "writes K w' (setState k a w')" by (rule writes_mono)
  with assms(2) show ?thesis by (rule writes_trans)
qed

lemma writes_log_debug: "writes K w w' \<Longrightarrow> writes K w (log_debug m w')"
  unfolding writes_def by (simp add: log_debug_def)

lemma writes_log_error: "writes K w w' \<Longrightarrow> writes K w (log_error m w')"
  unfolding writes_def by (simp add: log_error_def)

lemma writes_recalcAges: "writes K w w' \<Longrightarrow> writes K w (recalcAges b w')"
  unfolding writes_def by (simp add: recalcAges_def)

lemma pending_log_debug [simp]: "pending (log_debug m w) = pending w"
  by (simp add: log_debug_def)

lemma pending_log_error [simp]: "pending (log_error m w) = pending w"
  by (simp add: log_error_def)

lemma pending_recalcAges [simp]: "pending (recalcAges b w) = pending w @ [b]"
  by (simp add: recalcAges_def)

lemma update_pump_writes: "writes device_keys w w' \<Longrightarrow> writes device_keys w (update_pump e t p w')"
  by (cases "iob p"; cases "battery p"; cases "pstatus p")
     (simp_all add: update_pump_def Let_def device_keys_def writes_setState)

lemma update_pump_pending [simp]: "pending (update_pump e t p w) = pending w"
  by (cases "iob p"; cases "battery p"; cases "pstatus p") (simp_all add: update_pump_def Let_def)

lemma update_devicestatus_writes: "writes device_keys w (snd (update_devicestatus e t d w))"
proof (cases "devicestatus d")
  case None
  then show ?thesis by (simp add: update_devicestatus_def writes_refl)
next
  case (Some xs)
  show ?thesis
  proof (cases "xs = [] \<or> last xs = None")
    case True
    then show ?thesis using Some
      by (auto simp add: update_devicestatus_def writes_refl split: list.splits)
  next
    case False
    then obtain y ys st where x: "xs = y # ys" "last (y # ys) = Some st"
      by (cases xs) auto
    have d: "''data.device'' \<in> device_keys" "''data.uploaderBattery'' \<in> device_keys"
      by (simp_all add: device_keys_def)
    let ?w1 = "setState ''data.device'' (StateValue (device st) True) w"
    let ?w2 = "case pump st of None \<Rightarrow> ?w1 | Some p \<Rightarrow> update_pump e t p ?w1"
    have 1: "writes device_keys w ?w1" using d(1) writes_refl by (rule writes_setState)
    have 2: "writes device_keys w ?w2"
      using 1 by (cases "pump st") (simp_all add: update_pump_writes)
    have 3: "snd (update_devicestatus e t d w) =
               (case uploader st of None \<Rightarrow> ?w2
                | Some u \<Rightarrow> setState ''data.uploaderBattery'' (StateValue (uploader_battery u) True) ?w2)"
      using Some x by (simp add: update_devicestatus_def Let_def split: option.splits)
    show ?thesis unfolding 3 using 2 d(2)
      by (cases "uploader st") (simp_all add: writes_setState)
  qed
qed

lemma update_devicestatus_pending: "pending (snd (update_devicestatus e t d w)) = pending w"
  by (simp add: update_devicestatus_def Let_def split: option.splits list.splits)

lemma update_devicestatus_empty:
  "devicestatus d = None \<or> devicestatus d = Some [] \<Longrightarrow> update_devicestatus e t d w = (None, w)"
  by (auto simp add: update_devicestatus_def)

lemma update_sgvs_writes: "writes sgv_keys w (snd (update_sgvs d w))"
  by (simp add: update_sgvs_def sgv_keys_def writes_refl writes_setState
      split: option.splits list.splits)

lemma update_sgvs_pending: "pending (snd (update_sgvs d w)) = pending w"
  by (simp add: update_sgvs_def split: option.splits list.splits)

lemma emit_age_writes: "writes K w w' \<Longrightarrow> age_keys b \<subseteq> K \<Longrightarrow> writes K w (emit_age e now b info w')"
  by (simp add: emit_age_def age_keys_def writes_setState)

lemma emit_age_pending [simp]: "pending (emit_age e now b info w) = pending w"
  by (simp add: emit_age_def)

lemma fst_and_then:
  "fst (and_then r f) = (case fst r of Some err \<Rightarrow> Some err | None \<Rightarrow> fst (f (snd r)))"
  by (cases r) (simp add: and_then_def split: option.splits)

lemma snd_and_then:
  "snd (and_then r f) = (case fst r of Some err \<Rightarrow> snd r | None \<Rightarrow> snd (f (snd r)))"
  by (cases r) (simp add: and_then_def split: option.splits)

lemma writes_and_then:
  assumes "writes K w (snd r)" and "\<And>w'. writes K w w' \<Longrightarrow> writes K w (snd (f w'))"
  shows "writes K w (snd (and_then r f))"
  using assms by (cases "fst r") (simp_all add: snd_and_then)

lemma update_treatments_fail:
  assumes "\<not> all_present (treatments d)"
  shows "update_treatments e now now1 now2 d w = (Some TypeError, (False, False), w)"
proof -
  from assms obtain xs where x: "treatments d = Some xs" "None \<in> set xs"
    by (auto simp add: all_present_def split: option.splits)
  then obtain y ys where y: "xs = y # ys" by (cases xs) auto
  have "js_filter isSiteChange (y # ys) = Inl TypeError"
    using x(2) js_filter_Inl [of xs isSiteChange] by (simp only: y)
  then show ?thesis using x(1) y by (simp add: update_treatments_def)
qed

lemma update_treatments_writes:
  "writes ((if qualifying isSiteChange now1 d then age_keys ''data.cage'' else {}) \<union>
           (if qualifying isSensorChange now2 d then age_keys ''data.sage'' else {}))
     w (snd (snd (update_treatments e now now1 now2 d w)))"
proof (cases "all_present (treatments d)")
  case False
  then show ?thesis by (simp add: update_treatments_fail writes_refl)
next
  case True
  let ?K = "(if qualifying isSiteChange now1 d then age_keys ''data.cage'' else {}) \<union>
           (if qualifying isSensorChange now2 d then age_keys ''data.sage'' else {})"
  show ?thesis
  proof (cases "treatments d")
    case None
    then show ?thesis by (simp add: update_treatments_def writes_refl)
  next
    case (Some xs)
    then have n: "None \<notin> set xs" using True by (simp add: all_present_def)
    show ?thesis
    proof (cases xs)
      case Nil
      then show ?thesis using Some by (simp add: update_treatments_def writes_refl)
    next
      case (Cons y ys)
      have f: "js_filter isSiteChange (y # ys) = Inr (filter isSiteChange (map the xs))"
        "js_filter isSensorChange (y # ys) = Inr (filter isSensorChange (map the xs))"
        using js_filter_Inr [OF n, of isSiteChange] js_filter_Inr [OF n, of isSensorChange]
        by (simp_all only: Cons)
      let ?ci = "getLatestTreatmentsInfo e now1 (filter isSiteChange (map the xs))"
      let ?si = "getLatestTreatmentsInfo e now2 (filter isSensorChange (map the xs))"
      have q: "found ?ci = qualifying isSiteChange now1 d" "found ?si = qualifying isSensorChange now2 d"
        using found_filter [OF n] Some by (simp_all add: qualifying_def)
      let ?w1 = "if found ?ci then emit_age e now ''data.cage'' ?ci w else w"
      let ?w2 = "if found ?si then emit_age e now ''data.sage'' ?si ?w1 else ?w1"
      have s: "snd (snd (update_treatments e now now1 now2 d w)) = ?w2"
        using Some Cons f by (simp add: update_treatments_def Let_def)
      have 1: "writes ?K w ?w1"
        using q(1) by (simp add: writes_refl emit_age_writes)
      have 2: "writes ?K w ?w2"
      proof (cases "found ?si")
        case True
        then have "age_keys ''data.sage'' \<subseteq> ?K" using q(2) by simp
        with 1 have "writes ?K w (emit_age e now ''data.sage'' ?si ?w1)" by (rule emit_age_writes)
        then show ?thesis using True by simp
      next
        case False
        then show ?thesis using 1 by simp
      qed
      show ?thesis unfolding s by (rule 2)
    qed
  qed
qed

lemma update_treatments_pending:
  "pending (snd (snd (update_treatments e now now1 now2 d w))) = pending w"
  by (simp add: update_treatments_def Let_def split: option.splits list.splits sum.splits)

lemma recalc_missing_pending:
  "pending (recalc_missing flags w) =
     pending w @ (if fst flags then [] else [''data.cage'']) @ (if snd flags then [] else [''data.sage''])"
  by (simp add: recalc_missing_def Let_def)

lemma recalc_missing_writes: "writes K w w' \<Longrightarrow> writes K w (recalc_missing flags w')"
  by (simp add: recalc_missing_def Let_def writes_recalcAges writes_log_debug)

lemma writes_step:
  assumes "writes K w w'" "writes K' w' w''" "K' \<subseteq> K"
  shows "writes K w w''"
proof -
  from assms(2,3) have "writes K w' w''" by (rule writes_mono)
  with assms(1) show ?thesis by (rule writes_trans)
qed

lemma dataUpdate_try_absent:
  "dataUpdate_try e now now1 now2 Undefined w =
     (None, setState ''data.rawUpdate'' (StateValue JUndefined True) w)"
  "dataUpdate_try e now now1 now2 Null w =
     (None, setState ''data.rawUpdate'' (StateValue (JStr ''null'') True) w)"
  by (simp_all add: dataUpdate_try_def stringify_def)

lemma dataUpdate_try_fst:
  "fst (dataUpdate_try e now now1 now2 (Object d) w) = (if shape_ok d then None else Some TypeError)"
  by (simp add: dataUpdate_try_def Let_def fst_and_then snd_and_then update_devicestatus_fst
      update_sgvs_fst update_treatments_fst update_food_eq shape_ok_def)

lemma dataUpdate_try_pending:
  assumes "shape_ok d"
  shows "pending (snd (dataUpdate_try e now now1 now2 (Object d) w)) =
           pending w @ (if qualifying isSiteChange now1 d then [] else [''data.cage'']) @
                       (if qualifying isSensorChange now2 d then [] else [''data.sage''])"
proof -
  from assms have a: "last_present (devicestatus d)" "last_present (sgvs d)"
    "all_present (treatments d)" "all_present (food d)" by (simp_all add: shape_ok_def)
  show ?thesis
    by (simp add: dataUpdate_try_def Let_def fst_and_then snd_and_then update_devicestatus_fst
      update_sgvs_fst update_treatments_fst update_food_eq a recalc_missing_pending
      update_treatments_flags [OF a(3)] update_treatments_pending update_sgvs_pending
      update_devicestatus_pending)
qed

lemma dataUpdate_try_pending_fail:
  assumes "\<not> shape_ok d"
  shows "pending (snd (dataUpdate_try e now now1 now2 (Object d) w)) = pending w"
  using assms
  by (auto simp add: dataUpdate_try_def Let_def fst_and_then snd_and_then update_devicestatus_fst
      update_sgvs_fst update_treatments_fst update_food_eq shape_ok_def
      update_treatments_pending update_sgvs_pending update_devicestatus_pending
      split: option.splits)

lemma dataUpdate_try_writes:
  "writes (update_keys d now1 now2) w (snd (dataUpdate_try e now now1 now2 (Object d) w))"
proof -
  let ?K = "update_keys d now1 now2"
  let ?w1 = "setState ''data.rawUpdate'' (StateValue (stringify e (Object d)) True) w"
  let ?w2 = "if truthy (lastUpdated d)
             then setState ''data.lastUpdate'' (StateValue (lastUpdated d) True) ?w1 else ?w1"
  have 2: "writes ?K w ?w2"
    by (simp add: update_keys_def writes_setState writes_refl)
  have dev: "writes ?K w (snd (update_devicestatus e t d w'))" if "writes ?K w w'" for w' t
  proof (cases "devicestatus d = None \<or> devicestatus d = Some []")
    case True
    then show ?thesis using that by (simp add: update_devicestatus_empty)
  next
    case False
    then have "device_keys \<subseteq> ?K" by (auto simp add: update_keys_def)
    with that update_devicestatus_writes show ?thesis by (rule writes_step)
  qed
  have sgv: "writes ?K w (snd (update_sgvs d w'))" if "writes ?K w w'" for w'
  proof -
    have "sgv_keys \<subseteq> ?K" by (auto simp add: update_keys_def)
    with that update_sgvs_writes show ?thesis by (rule writes_step)
  qed
  have tr: "writes ?K w (snd (snd (update_treatments e now now1 now2 d w')))" if "writes ?K w w'" for w'
  proof -
    have "(if qualifying isSiteChange now1 d then age_keys ''data.cage'' else {}) \<union>
           (if qualifying isSensorChange now2 d then age_keys ''data.sage'' else {}) \<subseteq> ?K"
      by (auto simp add: update_keys_def)
    with that update_treatments_writes show ?thesis by (rule writes_step)
  qed
  show ?thesis
    unfolding dataUpdate_try_def Let_def payload.case
    by (intro writes_and_then dev sgv 2) (simp_all add: tr recalc_missing_writes)
qed

lemma on_dataUpdate_fst: "fst (on_dataUpdate e now now1 now2 p w) = None"
  by (simp add: on_dataUpdate_def split: prod.splits option.splits)

lemma on_dataUpdate_snd:
  "snd (on_dataUpdate e now now1 now2 p w) =
     (case fst (dataUpdate_try e now now1 now2 p (log_debug ''[CLIENT] dataUpdate'' w)) of
        Some err \<Rightarrow> log_error ''[CLIENT] Parse Error''
                      (snd (dataUpdate_try e now now1 now2 p (log_debug ''[CLIENT] dataUpdate'' w)))
      | None \<Rightarrow> snd (dataUpdate_try e now now1 now2 p (log_debug ''[CLIENT] dataUpdate'' w)))"
  by (simp add: on_dataUpdate_def split: prod.splits option.splits)

lemma on_dataUpdate_pending:
  assumes "shape_ok d"
  shows "pending (snd (on_dataUpdate e now now1 now2 (Object d) w)) =
           pending w @ (if qualifying isSiteChange now1 d then [] else [''data.cage'']) @
                       (if qualifying isSensorChange now2 d then [] else [''data.sage''])"
  using assms by (simp add: on_dataUpdate_snd dataUpdate_try_fst dataUpdate_try_pending)

lemma on_dataUpdate_pending_fail:
  assumes "\<not> shape_ok d"
  shows "pending (snd (on_dataUpdate e now now1 now2 (Object d) w)) = pending w"
  using assms by (simp add: on_dataUpdate_snd dataUpdate_try_fst dataUpdate_try_pending_fail)

lemma on_dataUpdate_absent:
  "on_dataUpdate e now now1 now2 Undefined w =
     (None, setState ''data.rawUpdate'' (StateValue JUndefined True) (log_debug ''[CLIENT] dataUpdate'' w))"
  "on_dataUpdate e now now1 now2 Null w =
     (None, setState ''data.rawUpdate'' (StateValue (JStr ''null'') True) (log_debug ''[CLIENT] dataUpdate'' w))"
  by (simp_all add: on_dataUpdate_def dataUpdate_try_absent)

lemma on_dataUpdate_writes:
  "writes (update_keys d now1 now2) w (snd (on_dataUpdate e now now1 now2 (Object d) w))"
proof -
  have "writes (update_keys d now1 now2) w (log_debug ''[CLIENT] dataUpdate'' w)"
    using writes_refl by (rule writes_log_debug)
  then have "writes (update_keys d now1 now2) w
               (snd (dataUpdate_try e now now1 now2 (Object d) (log_debug ''[CLIENT] dataUpdate'' w)))"
    using dataUpdate_try_writes by (rule writes_trans)
  then show ?thesis
    by (simp add: on_dataUpdate_snd writes_log_error split: option.splits)
qed

lemma cage_changed_not_written:
  "\<not> qualifying isSiteChange now1 d \<Longrightarrow> ''data.cage.changed'' \<notin> update_keys d now1 now2"
  by (simp add: update_keys_def device_keys_def sgv_keys_def age_keys_def)

lemma sage_changed_not_written:
  "\<not> qualifying isSensorChange now2 d \<Longrightarrow> ''data.sage.changed'' \<notin> update_keys d now1 now2"
  by (simp add: update_keys_def device_keys_def sgv_keys_def age_keys_def)

lemma resolve_pending_None:
  "pending w = baseId # rest \<Longrightarrow> states w (baseId @ ''.changed'') = None \<Longrightarrow>
   resolve_pending e now w = w\<lparr>pending := rest\<rparr>"
  by (simp add: resolve_pending_def)

lemma resolve_pending_Some:
  assumes "pending w = baseId # rest" "states w (baseId @ ''.changed'') = Some s"
  shows "setState_calls (resolve_pending e now w) =
           setState_calls w @
             [(baseId @ ''.age'', timed (JNum now) (number (map_option (diff_hours now) (moment e now (val_of s))))),
              (baseId @ ''.days'', timed (JNum now) (number (map_option (diff_days e now) (moment e now (val_of s))))),
              (baseId @ ''.hours'', timed (JNum now)
                 (number (map_option (\<lambda>t. diff_hours now t - diff_days e now t * 24) (moment e now (val_of s)))))]"
    and "states (resolve_pending e now w) (baseId @ ''.changed'') = Some s"
    and "pending (resolve_pending e now w) = rest"
  using assms by (simp_all add: resolve_pending_def recalcAges_then_calls recalcAges_then_changed)

lemma resolve_pending_30h:
  assumes "pending w = ''data.cage'' # rest" "states w ''data.cage.changed'' = Some s"
    "val_of s = JNum (T - 108000000)" "\<bar>T - 108000000\<bar> \<le> 8640000000000000"
  shows "setState_calls (resolve_pending e T w) =
           setState_calls w @
             [(''data.cage.age'', timed (JNum T) (JNum 30)),
              (''data.cage.days'', timed (JNum T) (JNum 1)),
              (''data.cage.hours'', timed (JNum T) (JNum 6))]"
proof -
  have s: "states w (''data.cage'' @ ''.changed'') = Some s" using assms(2) by simp
  have m: "moment e T (val_of s) = Some (T - 108000000)"
    using assms(3,4) by (simp add: timeClip_def)
  show ?thesis
    unfolding resolve_pending_Some(1) [OF assms(1) s] m
    by (simp add: diff_hours_def diff_days_def utcOffset_def absFloor_def)
qed

text \<open>
  Claim C2 (corrected). The read of the stored \<open>changed\<close> state of a category without a
  qualifying treatment is started only at the end of the \<open>try\<close> block. When the payload
  is an object that is decoded without an exception, the handler starts the read of each
  category without a qualifying treatment (and has not written its \<open>changed\<close> state).
  When the decoding throws, or the payload is \<open>undefined\<close> or \<open>null\<close>, no read is started.
  When a read is answered: without a stored state nothing is written; with a stored state
  exactly the age, days and hours facts are written, computed from the stored value
  against now (\<open>NaN\<close> when the stored value is no date), and the \<open>changed\<close> state stays
  as it was. A stored \<open>data.cage.changed\<close> of T - 30 h gives age 30, days 1 and hours 6.
\<close>

theorem recovery_path_recomputes_from_stored_changed:
  "(shape_ok d \<longrightarrow>
      pending (snd (on_dataUpdate e now now1 now2 (Object d) w)) =
        pending w @ (if qualifying isSiteChange now1 d then [] else [''data.cage'']) @
                    (if qualifying isSensorChange now2 d then [] else [''data.sage'']))
   \<and> (\<not> shape_ok d \<longrightarrow>
        fst (on_dataUpdate e now now1 now2 (Object d) w) = None \<and>
        pending (snd (on_dataUpdate e now now1 now2 (Object d) w)) = pending w)
   \<and> pending (snd (on_dataUpdate e now now1 now2 Undefined w)) = pending w
   \<and> pending (snd (on_dataUpdate e now now1 now2 Null w)) = pending w
   \<and> (\<not> qualifying isSiteChange now1 d \<longrightarrow>
        states (snd (on_dataUpdate e now now1 now2 (Object d) w)) ''data.cage.changed'' =
        states w ''data.cage.changed'')
   \<and> (\<not> qualifying isSensorChange now2 d \<longrightarrow>
        states (snd (on_dataUpdate e now now1 now2 (Object d) w)) ''data.sage.changed'' =
        states w ''data.sage.changed'')
   \<and> (pending v = baseId # rest \<and> states v (baseId @ ''.changed'') = None \<longrightarrow>
        resolve_pending e now' v = v\<lparr>pending := rest\<rparr>)
   \<and> (pending v = baseId # rest \<and> states v (baseId @ ''.changed'') = Some s \<longrightarrow>
        setState_calls (resolve_pending e now' v) =
          setState_calls v @
            [(baseId @ ''.age'', timed (JNum now') (number (map_option (diff_hours now') (moment e now' (val_of s))))),
             (baseId @ ''.days'', timed (JNum now') (number (map_option (diff_days e now') (moment e now' (val_of s))))),
             (baseId @ ''.hours'', timed (JNum now')
                (number (map_option (\<lambda>t. diff_hours now' t - diff_days e now' t * 24) (moment e now' (val_of s)))))] \<and>
        states (resolve_pending e now' v) (baseId @ ''.changed'') = Some s \<and>
        pending (resolve_pending e now' v) = rest)
   \<and> (pending v = ''data.cage'' # rest \<and> states v ''data.cage.changed'' = Some s \<and>
       val_of s = JNum (T - 108000000) \<and> \<bar>T - 108000000\<bar> \<le> 8640000000000000 \<longrightarrow>
        setState_calls (resolve_pending e T v) =
          setState_calls v @
            [(''data.cage.age'', timed (JNum T) (JNum 30)),
             (''data.cage.days'', timed (JNum T) (JNum 1)),
             (''data.cage.hours'', timed (JNum T) (JNum 6))])"
proof (intro conjI impI)
  assume "shape_ok d"
  then show "pending (snd (on_dataUpdate e now now1 now2 (Object d) w)) =
        pending w @ (if qualifying isSiteChange now1 d then [] else [''data.cage'']) @
                    (if qualifying isSensorChange now2 d then [] else [''data.sage''])"
    by (rule on_dataUpdate_pending)
next
  assume n: "\<not> shape_ok d"
  show "fst (on_dataUpdate e now now1 now2 (Object d) w) = None" by (rule on_dataUpdate_fst)
  from n show "pending (snd (on_dataUpdate e now now1 now2 (Object d) w)) = pending w"
    by (rule on_dataUpdate_pending_fail)
next
  show "pending (snd (on_dataUpdate e now now1 now2 Undefined w)) = pending w"
    by (simp add: on_dataUpdate_absent)
next
  show "pending (snd (on_dataUpdate e now now1 now2 Null w)) = pending w"
    by (simp add: on_dataUpdate_absent)
next
  assume "\<not> qualifying isSiteChange now1 d"
  then have "''data.cage.changed'' \<notin> update_keys d now1 now2" by (rule cage_changed_not_written)
  then show "states (snd (on_dataUpdate e now now1 now2 (Object d) w)) ''data.cage.changed'' =
        states w ''data.cage.changed''"
    by (rule writesD(2) [OF on_dataUpdate_writes])
next
  assume "\<not> qualifying isSensorChange now2 d"
  then have "''data.sage.changed'' \<notin> update_keys d now1 now2" by (rule sage_changed_not_written)
  then show "states (snd (on_dataUpdate e now now1 now2 (Object d) w)) ''data.sage.changed'' =
        states w ''data.sage.changed''"
    by (rule writesD(2) [OF on_dataUpdate_writes])
next
  assume "pending v = baseId # rest \<and> states v (baseId @ ''.changed'') = None"
  then show "resolve_pending e now' v = v\<lparr>pending := rest\<rparr>"
    by (simp add: resolve_pending_None)
next
  assume a: "pending v = baseId # rest \<and> states v (baseId @ ''.changed'') = Some s"
  then have p: "pending v = baseId # rest" and s: "states v (baseId @ ''.changed'') = Some s"
    by simp_all
  show "setState_calls (resolve_pending e now' v) =
          setState_calls v @
            [(baseId @ ''.age'', timed (JNum now') (number (map_option (diff_hours now') (moment e now' (val_of s))))),
             (baseId @ ''.days'', timed (JNum now') (number (map_option (diff_days e now') (moment e now' (val_of s))))),
             (baseId @ ''.hours'', timed (JNum now')
                (number (map_option (\<lambda>t. diff_hours now' t - diff_days e now' t * 24) (moment e now' (val_of s)))))]"
    by (rule resolve_pending_Some(1) [OF p s])
  show "states (resolve_pending e now' v) (baseId @ ''.changed'') = Some s"
    by (rule resolve_pending_Some(2) [OF p s])
  show "pending (resolve_pending e now' v) = rest"
    by (rule resolve_pending_Some(3) [OF p s])
next
  assume "pending v = ''data.cage'' # rest \<and> states v ''data.cage.changed'' = Some s \<and>
       val_of s = JNum (T - 108000000) \<and> \<bar>T - 108000000\<bar> \<le> 8640000000000000"
  then show "setState_calls (resolve_pending e T v) =
          setState_calls v @
            [(''data.cage.age'', timed (JNum T) (JNum 30)),
             (''data.cage.days'', timed (JNum T) (JNum 1)),
             (''data.cage.hours'', timed (JNum T) (JNum 6))]"
    by (simp add: resolve_pending_30h)
qed

theorem recovery_path_recomputes_from_stored_changed_witness:
  "shape_ok update0
   \<and> \<not> qualifying isSiteChange 1700000000000 update0
   \<and> pending (snd (on_dataUpdate env0 1700000000000 1700000000000 1700000000000 (Object update0)
                      (NightscoutClient store0))) = [''data.cage'']
   \<and> states (snd (on_dataUpdate env0 1700000000000 1700000000000 1700000000000 (Object update0)
                      (NightscoutClient store0))) ''data.cage.changed'' =
       Some (StateObject \<lparr>ts = JNum 1699892000000, ack = True, val = JNum 1699892000000\<rparr>)
   \<and> setState_calls (resolve_pending env0 1700000000000
        (snd (on_dataUpdate env0 1700000000000 1700000000000 1700000000000 (Object update0)
                      (NightscoutClient store0)))) =
       setState_calls (snd (on_dataUpdate env0 1700000000000 1700000000000 1700000000000 (Object update0)
                      (NightscoutClient store0))) @
         [(''data.cage.age'', timed (JNum 1700000000000) (JNum 30)),
          (''data.cage.days'', timed (JNum 1700000000000) (JNum 1)),
          (''data.cage.hours'', timed (JNum 1700000000000) (JNum 6))]
   \<and> resolve_pending env0 1700000000000 ((NightscoutClient Map.empty)\<lparr>pending := [''data.sage'']\<rparr>) =
       NightscoutClient Map.empty
   \<and> \<not> qualifying isSensorChange 1700000000000 (update0\<lparr>treatments := None\<rparr>)
   \<and> states (snd (on_dataUpdate env0 1700000000000 1700000000000 1700000000000
                      (Object (update0\<lparr>treatments := None\<rparr>)) (NightscoutClient store0)))
         ''data.sage.changed'' = None
   \<and> \<not> shape_ok update_null_food
   \<and> pending (snd (on_dataUpdate env0 1700000000000 1700000000000 1700000000000
                      (Object update_null_food) (NightscoutClient store1))) = []"
proof -
  let ?N = "1700000000000 :: int"
  let ?w = "NightscoutClient store0"
  let ?v = "snd (on_dataUpdate env0 ?N ?N ?N (Object update0) ?w)"
  let ?s = "StateObject \<lparr>ts = JNum 1699892000000, ack = True, val = JNum 1699892000000\<rparr>"
  let ?u = "(NightscoutClient Map.empty)\<lparr>pending := [''data.sage'']\<rparr>"
  have sh: "shape_ok update0"
    by (simp add: update0_def shape_ok_def last_present_def all_present_def)
  have q1: "\<not> qualifying isSiteChange ?N update0"
    by (simp add: qualifying_def update0_def isSiteChange_def)
  have q2: "qualifying isSensorChange ?N update0"
    by (simp add: qualifying_def update0_def isSensorChange_def)
  note t = recovery_path_recomputes_from_stored_changed
    [where d = update0 and e = env0 and now = ?N and ?now1.0 = ?N and ?now2.0 = ?N and w = ?w
       and v = ?v and baseId = "''data.cage''" and rest = "[]" and s = ?s and T = ?N and now' = ?N]
  from t sh q1 q2 have p: "pending ?v = [''data.cage'']"
    by (simp add: NightscoutClient_def)
  from t q1 have st: "states ?v ''data.cage.changed'' = Some ?s"
    by (simp add: NightscoutClient_def store0_def)
  from t p st have c: "setState_calls (resolve_pending env0 ?N ?v) =
       setState_calls ?v @
         [(''data.cage.age'', timed (JNum ?N) (JNum 30)),
          (''data.cage.days'', timed (JNum ?N) (JNum 1)),
          (''data.cage.hours'', timed (JNum ?N) (JNum 6))]"
    by (simp add: timeClip_def diff_hours_def diff_days_def utcOffset_def env0_def absFloor_def)
  have n: "resolve_pending env0 ?N ?u = NightscoutClient Map.empty"
    using recovery_path_recomputes_from_stored_changed
      [where v = ?u and baseId = "''data.sage''" and rest = "[]" and e = env0 and now' = ?N]
    by (simp add: NightscoutClient_def)
  have q3: "\<not> qualifying isSensorChange ?N (update0\<lparr>treatments := None\<rparr>)"
    by (simp add: qualifying_def)
  from recovery_path_recomputes_from_stored_changed
      [where d = "update0\<lparr>treatments := None\<rparr>" and e = env0 and now = ?N and ?now1.0 = ?N
         and ?now2.0 = ?N and w = ?w] q3
  have u: "states (snd (on_dataUpdate env0 ?N ?N ?N (Object (update0\<lparr>treatments := None\<rparr>)) ?w))
             ''data.sage.changed'' = None"
    by (simp add: NightscoutClient_def store0_def)
  have nsh: "\<not> shape_ok update_null_food"
    by (simp add: update_null_food_def shape_ok_def last_present_def all_present_def)
  from recovery_path_recomputes_from_stored_changed
      [where d = update_null_food and e = env0 and now = ?N and ?now1.0 = ?N
         and ?now2.0 = ?N and w = "NightscoutClient store1"] nsh
  have f: "pending (snd (on_dataUpdate env0 ?N ?N ?N (Object update_null_food)
                      (NightscoutClient store1))) = []"
    by (simp add: NightscoutClient_def)
  from sh q1 p st c n q3 u nsh f show ?thesis by simp
qed

text \<open>
  Claim C2, the refuted reading: a data update with one site change, no sensor change and
  a food sequence that holds \<open>null\<close>, on a store that holds \<open>data.sage.changed\<close>. The site
  change is written, the filter of the food records throws, and the handler ends in its
  \<open>catch\<close>: no read of \<open>data.sage.changed\<close> is started and no fact of \<open>data.sage\<close> is
  written, though the update holds no qualifying sensor change and a value is stored.
\<close>

theorem null_food_record_starts_no_recovery:
  "\<not> qualifying isSensorChange 1700000000000 update_null_food
   \<and> states (NightscoutClient store1) ''data.sage.changed'' =
       Some (StateObject \<lparr>ts = JNum 1699892000000, ack = True, val = JNum 1699892000000\<rparr>)
   \<and> pending (snd (on_dataUpdate env0 1700000000000 1700000000000 1700000000000
                      (Object update_null_food) (NightscoutClient store1))) = []
   \<and> map fst (setState_calls (snd (on_dataUpdate env0 1700000000000 1700000000000 1700000000000
                      (Object update_null_food) (NightscoutClient store1)))) =
       [''data.rawUpdate'', ''data.cage.age'', ''data.cage.days'', ''data.cage.hours'',
        ''data.cage.changed'']
   \<and> logged (snd (on_dataUpdate env0 1700000000000 1700000000000 1700000000000
                      (Object update_null_food) (NightscoutClient store1))) =
       [Debug ''[CLIENT] dataUpdate'', Error ''[CLIENT] Parse Error'']
   \<and> resolve_pending env0 1700000000000
         (snd (on_dataUpdate env0 1700000000000 1700000000000 1700000000000
                      (Object update_null_food) (NightscoutClient store1))) =
       snd (on_dataUpdate env0 1700000000000 1700000000000 1700000000000
                      (Object update_null_food) (NightscoutClient store1))"
  by (simp add: qualifying_def update_null_food_def isSensorChange_def isSiteChange_def
      store1_def NightscoutClient_def on_dataUpdate_def dataUpdate_try_def stringify_def
      update_devicestatus_def update_sgvs_def update_treatments_def update_food_def
      and_then_def emit_age_def setState_def log_debug_def log_error_def resolve_pending_def
      getLatestTreatmentsInfo_def forEach_body_def treatmentInfo0_def Let_def timed_def
      diff_hours_def diff_days_def utcOffset_def env0_def absFloor_def timeClip_def)

subsection \<open>A data update without device status\<close>

lemma update_keys_no_device:
  assumes "devicestatus d = None \<or> devicestatus d = Some []"
  shows "update_keys d now1 now2 \<inter> device_keys = {}"
proof -
  have "{''data.rawUpdate'', ''data.lastUpdate''} \<inter> device_keys = {}"
    by (simp add: device_keys_def)
  moreover have "sgv_keys \<inter> device_keys = {}"
    by (simp add: device_keys_def sgv_keys_def)
  moreover have "age_keys ''data.cage'' \<inter> device_keys = {}"
    by (simp add: device_keys_def age_keys_def)
  moreover have "age_keys ''data.sage'' \<inter> device_keys = {}"
    by (simp add: device_keys_def age_keys_def)
  ultimately show ?thesis using assms unfolding update_keys_def by (simp add: Int_Un_distrib2)
qed

text \<open>
  Claim C7. For a data update whose device status sequence is absent or empty the
  handler returns without an exception, writes no fact on one of the nine device
  keys and leaves the stored states of these keys as they were. (A payload that is
  \<open>undefined\<close> or \<open>null\<close> writes the raw mirror only.)
\<close>

theorem empty_devicestatus_writes_no_device_fact:
  "(devicestatus d = None \<or> devicestatus d = Some [] \<longrightarrow>
      fst (on_dataUpdate e now now1 now2 (Object d) w) = None \<and>
      (\<exists>xs. setState_calls (snd (on_dataUpdate e now now1 now2 (Object d) w)) = setState_calls w @ xs \<and>
            (\<forall>k \<in> fst ` set xs.
               k \<notin> {''data.device'', ''data.clock'', ''data.reservoir'', ''data.bolusiob'',
                     ''data.pumpBattery'', ''data.bolusing'', ''data.status'', ''data.suspended'',
                     ''data.uploaderBattery''})) \<and>
      (\<forall>k \<in> {''data.device'', ''data.clock'', ''data.reservoir'', ''data.bolusiob'',
               ''data.pumpBattery'', ''data.bolusing'', ''data.status'', ''data.suspended'',
               ''data.uploaderBattery''}.
         states (snd (on_dataUpdate e now now1 now2 (Object d) w)) k = states w k))
   \<and> fst (on_dataUpdate e now now1 now2 Undefined w) = None
   \<and> setState_calls (snd (on_dataUpdate e now now1 now2 Undefined w)) =
       setState_calls w @ [(''data.rawUpdate'', StateValue JUndefined True)]
   \<and> fst (on_dataUpdate e now now1 now2 Null w) = None
   \<and> setState_calls (snd (on_dataUpdate e now now1 now2 Null w)) =
       setState_calls w @ [(''data.rawUpdate'', StateValue (JStr ''null'') True)]"
proof (intro conjI impI)
  assume a: "devicestatus d = None \<or> devicestatus d = Some []"
  let ?w' = "snd (on_dataUpdate e now now1 now2 (Object d) w)"
  let ?D = "{''data.device'', ''data.clock'', ''data.reservoir'', ''data.bolusiob'',
             ''data.pumpBattery'', ''data.bolusing'', ''data.status'', ''data.suspended'',
             ''data.uploaderBattery''}"
  have D: "?D = device_keys" by (simp add: device_keys_def)
  have wr: "writes (update_keys d now1 now2) w ?w'" by (rule on_dataUpdate_writes)
  have dis: "update_keys d now1 now2 \<inter> device_keys = {}" using a by (rule update_keys_no_device)
  show "fst (on_dataUpdate e now now1 now2 (Object d) w) = None" by (rule on_dataUpdate_fst)
  from writesD(1) [OF wr] obtain xs where
    x: "setState_calls ?w' = setState_calls w @ xs" "fst ` set xs \<subseteq> update_keys d now1 now2"
    by (elim exE conjE)
  have "\<forall>k \<in> fst ` set xs. k \<notin> ?D"
  proof
    fix k assume "k \<in> fst ` set xs"
    with x(2) have "k \<in> update_keys d now1 now2" by (rule subsetD)
    with dis show "k \<notin> ?D" unfolding D by (meson disjoint_iff)
  qed
  with x(1) show "\<exists>xs. setState_calls ?w' = setState_calls w @ xs \<and> (\<forall>k \<in> fst ` set xs. k \<notin> ?D)"
    by (intro exI conjI)
  show "\<forall>k \<in> ?D. states ?w' k = states w k"
  proof
    fix k assume "k \<in> ?D"
    then have "k \<in> device_keys" unfolding D .
    with dis have "k \<notin> update_keys d now1 now2" by (meson disjoint_iff)
    then show "states ?w' k = states w k" by (rule writesD(2) [OF wr])
  qed
next
  show "fst (on_dataUpdate e now now1 now2 Undefined w) = None" by (rule on_dataUpdate_fst)
next
  show "setState_calls (snd (on_dataUpdate e now now1 now2 Undefined w)) =
       setState_calls w @ [(''data.rawUpdate'', StateValue JUndefined True)]"
    by (simp add: on_dataUpdate_absent log_debug_def)
next
  show "fst (on_dataUpdate e now now1 now2 Null w) = None" by (rule on_dataUpdate_fst)
next
  show "setState_calls (snd (on_dataUpdate e now now1 now2 Null w)) =
       setState_calls w @ [(''data.rawUpdate'', StateValue (JStr ''null'') True)]"
    by (simp add: on_dataUpdate_absent log_debug_def)
qed

lemma on_dataUpdate_update0:
  "on_dataUpdate env0 1700000000000 1700000000000 1700000000000 (Object update0) (NightscoutClient store0) =
     (None,
      \<lparr>previousNotifyTimestamp = JNull, nsSocket = Some Socket,
       states = store0
         (''data.rawUpdate'' \<mapsto> StateValue (JStr ''{}'') True,
          ''data.sage.age'' \<mapsto> timed (JNum 1700000000000) (JNum 2),
          ''data.sage.days'' \<mapsto> timed (JNum 1700000000000) (JNum 0),
          ''data.sage.hours'' \<mapsto> timed (JNum 1700000000000) (JNum 2),
          ''data.sage.changed'' \<mapsto>
             StateObject \<lparr>ts = JNum 1699990000000, ack = True, val = JNum 1699990000000\<rparr>),
       setState_calls =
         [(''data.rawUpdate'', StateValue (JStr ''{}'') True),
          (''data.sage.age'', timed (JNum 1700000000000) (JNum 2)),
          (''data.sage.days'', timed (JNum 1700000000000) (JNum 0)),
          (''data.sage.hours'', timed (JNum 1700000000000) (JNum 2)),
          (''data.sage.changed'',
             StateObject \<lparr>ts = JNum 1699990000000, ack = True, val = JNum 1699990000000\<rparr>)],
       logged = [Debug ''[CLIENT] dataUpdate'',
                 Debug ''[CLIENT] No cannula treatments found. Recalculate age''],
       connection_events = [], socket_calls = [], pending = [''data.cage'']\<rparr>)"
  by (simp add: on_dataUpdate_def dataUpdate_try_def and_then_def update_devicestatus_def
      update_sgvs_def update_treatments_def update_food_def recalc_missing_def recalcAges_def
      emit_age_def setState_def log_debug_def NightscoutClient_def update0_def env0_def
      isSiteChange_def isSensorChange_def getLatestTreatmentsInfo_def forEach_body_def
      treatmentInfo0_def diff_hours_def diff_days_def utcOffset_def absFloor_def timeClip_def
      stringify_def Let_def)

theorem empty_devicestatus_writes_no_device_fact_witness:
  "devicestatus update0 = Some []
   \<and> fst (on_dataUpdate env0 1700000000000 1700000000000 1700000000000 (Object update0)
             (NightscoutClient store0)) = None
   \<and> fst ` set (setState_calls
        (snd (on_dataUpdate env0 1700000000000 1700000000000 1700000000000 (Object update0)
               (NightscoutClient store0)))) =
       {''data.rawUpdate'', ''data.sage.age'', ''data.sage.days'', ''data.sage.hours'', ''data.sage.changed''}
   \<and> states (snd (on_dataUpdate env0 1700000000000 1700000000000 1700000000000 (Object update0)
               (NightscoutClient store0))) ''data.device'' = None"
proof -
  have d: "devicestatus update0 = Some []" by (simp add: update0_def)
  have s: "states (NightscoutClient store0) ''data.device'' = None"
    by (simp add: NightscoutClient_def store0_def)
  from empty_devicestatus_writes_no_device_fact
    [where d = update0 and e = env0 and now = 1700000000000 and ?now1.0 = 1700000000000
       and ?now2.0 = 1700000000000 and w = "NightscoutClient store0"] d s
  have "fst (on_dataUpdate env0 1700000000000 1700000000000 1700000000000 (Object update0)
             (NightscoutClient store0)) = None
    \<and> states (snd (on_dataUpdate env0 1700000000000 1700000000000 1700000000000 (Object update0)
               (NightscoutClient store0))) ''data.device'' = None"
    by simp
  with d show ?thesis by (simp add: on_dataUpdate_update0)
qed

subsection \<open>Exceptions of the handlers\<close>

lemma on_dataUpdate_logs_failure:
  assumes "\<not> shape_ok d"
  shows "logged (snd (on_dataUpdate e now now1 now2 (Object d) w)) =
           logged (snd (dataUpdate_try e now now1 now2 (Object d) (log_debug ''[CLIENT] dataUpdate'' w)))
           @ [Error ''[CLIENT] Parse Error'']"
  using assms by (simp add: on_dataUpdate_snd dataUpdate_try_fst log_error_def)

text \<open>
  The handler of \<open>dataUpdate\<close> never lets an exception out, keeps every fact written
  before the failure, and logs the failure.
\<close>

lemma on_dataUpdate_catches:
  "fst (on_dataUpdate e now now1 now2 p w) = None"
  "\<exists>xs. setState_calls (snd (on_dataUpdate e now now1 now2 p w)) = setState_calls w @ xs"
  "p = Object d \<Longrightarrow> \<not> shape_ok d \<Longrightarrow>
     last (logged (snd (on_dataUpdate e now now1 now2 p w))) = Error ''[CLIENT] Parse Error''"
proof -
  show "fst (on_dataUpdate e now now1 now2 p w) = None" by (rule on_dataUpdate_fst)
  show "\<exists>xs. setState_calls (snd (on_dataUpdate e now now1 now2 p w)) = setState_calls w @ xs"
  proof (cases p)
    case Undefined
    then show ?thesis by (simp add: on_dataUpdate_absent log_debug_def)
  next
    case Null
    then show ?thesis by (simp add: on_dataUpdate_absent log_debug_def)
  next
    case (Object d)
    from writesD(1) [OF on_dataUpdate_writes [of d now1 now2 w e now]] show ?thesis
      unfolding Object by blast
  qed
  show "p = Object d \<Longrightarrow> \<not> shape_ok d \<Longrightarrow>
     last (logged (snd (on_dataUpdate e now now1 now2 p w))) = Error ''[CLIENT] Parse Error''"
    by (simp add: on_dataUpdate_logs_failure)
qed

text \<open>The handlers of the other update events, \<open>clear_alarm\<close> apart, cannot throw.\<close>

lemma other_handlers_do_not_throw:
  "fst (on_notification e now n w) = None"
  "fst (on_announcement a w) = None"
  "fst (on_alarm l w) = None"
  "fst (on_urgent_alarm l w) = None"
  "fst (on_retroUpdate a w) = None"
  "fst (on_clear_alarm (Object c) w) = None"
  by (simp_all add: on_notification_def on_announcement_def on_alarm_def on_urgent_alarm_def
      on_retroUpdate_def on_clear_alarm_def Let_def split: payload.splits)

text \<open>
  Claim C4. The claim fails for the update event \<open>clear_alarm\<close>: its handler reads
  \<open>data.clear\<close> without a guard and without a \<open>try\<close>, so a payload that is \<open>undefined\<close>
  or \<open>null\<close> makes it throw a \<open>TypeError\<close> that reaches the transport's dispatch; the
  events behind it are not delivered by that run, and nothing but the debug line is
  logged.
\<close>

theorem clear_alarm_without_payload_throws:
  "on_clear_alarm Undefined w = (Some TypeError, log_debug ''[CLIENT] clear_alarm'' w)
   \<and> on_clear_alarm Null w = (Some TypeError, log_debug ''[CLIENT] clear_alarm'' w)
   \<and> deliver e ((now, ClearAlarm Undefined) # evs) w =
       (Some TypeError, log_debug ''[CLIENT] clear_alarm'' w)
   \<and> deliver e ((now, ClearAlarm Null) # evs) w =
       (Some TypeError, log_debug ''[CLIENT] clear_alarm'' w)"
  by (simp add: on_clear_alarm_def)

subsection \<open>Notifications\<close>

lemma truthy_strict_eq: "truthy a \<Longrightarrow> strict_eq a b \<longleftrightarrow> a = b"
  by (cases a) (simp_all add: strict_eq_def)

lemma falsy_values:
  "\<not> truthy v \<longleftrightarrow> v \<in> {JUndefined, JNull, JBool False, JNum 0, JNaN, JStr []}"
  by (cases v) auto

lemma truthy_number: "truthy (number x) \<longleftrightarrow> (\<exists>t. x = Some t \<and> t \<noteq> 0)"
  by (cases x) simp_all

lemma on_notification_discard:
  assumes "truthy (timestamp d)" "timestamp d = previousNotifyTimestamp w"
  shows "on_notification e now (Object d) w = (None, log_debug ''[CLIENT] notification'' w)"
  using assms by (simp add: on_notification_def Let_def truthy_strict_eq log_debug_def)

lemma on_notification_emit:
  assumes "\<not> (truthy (timestamp d) \<and> timestamp d = previousNotifyTimestamp w)"
  shows "on_notification e now (Object d) w =
     (None, setState (fst (notification_fact e now d)) (snd (notification_fact e now d))
              ((log_debug ''[CLIENT] notification'' w)
                 \<lparr>previousNotifyTimestamp :=
                    if truthy (timestamp d) then timestamp d else previousNotifyTimestamp w\<rparr>))"
proof (cases "truthy (timestamp d)")
  case True
  with assms have n: "timestamp d \<noteq> previousNotifyTimestamp w" by simp
  show ?thesis
  proof (cases "Date_getTime e (timestamp d)")
    case None
    then show ?thesis using True n
      by (simp add: on_notification_def Let_def truthy_strict_eq log_debug_def notification_fact_def)
  next
    case (Some t)
    then show ?thesis using True n
      by (simp add: on_notification_def Let_def truthy_strict_eq log_debug_def notification_fact_def)
  qed
next
  case False
  then show ?thesis
    by (simp add: on_notification_def Let_def log_debug_def notification_fact_def)
qed

lemma on_notification_second:
  assumes "truthy (timestamp d)" "timestamp d' = timestamp d"
  shows "on_notification e now' (Object d') (snd (on_notification e now (Object d) w)) =
           (None, log_debug ''[CLIENT] notification'' (snd (on_notification e now (Object d) w)))"
proof -
  have "previousNotifyTimestamp (snd (on_notification e now (Object d) w)) = timestamp d"
  proof (cases "timestamp d = previousNotifyTimestamp w")
    case True
    then show ?thesis using assms(1) by (simp add: on_notification_discard log_debug_def)
  next
    case False
    then show ?thesis using assms(1) by (simp add: on_notification_emit)
  qed
  then have "timestamp d' = previousNotifyTimestamp (snd (on_notification e now (Object d) w))"
    using assms(2) by simp
  moreover have "truthy (timestamp d')" using assms by simp
  ultimately show ?thesis by (rule on_notification_discard [rotated])
qed

text \<open>
  Claim C3. A notification whose timestamp is truthy and equal to the stored
  \<open>previousNotifyTimestamp\<close> is dropped: nothing is written and the stored timestamp
  stays. Every other notification writes one \<open>data.notification\<close> fact and, when its
  timestamp is truthy, stores that timestamp. The fact is acknowledged, its value is
  the title, a space and the message, and its \<open>ts\<close> is the time of the payload's
  timestamp when \<open>Date\<close> reads it as a time other than 0, and now otherwise. So the
  second of two consecutive notifications with the same truthy timestamp is dropped, and
  a notification with another truthy timestamp is written.
\<close>

theorem notification_deduplicated_by_timestamp:
  "(truthy (timestamp d) \<and> timestamp d = previousNotifyTimestamp w \<longrightarrow>
      fst (on_notification e now (Object d) w) = None \<and>
      setState_calls (snd (on_notification e now (Object d) w)) = setState_calls w \<and>
      states (snd (on_notification e now (Object d) w)) = states w \<and>
      previousNotifyTimestamp (snd (on_notification e now (Object d) w)) = previousNotifyTimestamp w)
   \<and> (\<not> (truthy (timestamp d) \<and> timestamp d = previousNotifyTimestamp w) \<longrightarrow>
      fst (on_notification e now (Object d) w) = None \<and>
      setState_calls (snd (on_notification e now (Object d) w)) =
        setState_calls w @ [notification_fact e now d] \<and>
      previousNotifyTimestamp (snd (on_notification e now (Object d) w)) =
        (if truthy (timestamp d) then timestamp d else previousNotifyTimestamp w))
   \<and> (\<exists>t. notification_fact e now d =
          (''data.notification'',
           StateObject \<lparr>ts = JNum t, ack = True,
                         val = JStr (template (title d) @ '' '' @ template (message d))\<rparr>) \<and>
          (truthy (timestamp d) \<and> timestamp d = JNum n \<and> \<bar>n\<bar> \<le> 8640000000000000 \<longrightarrow> t = n) \<and>
          (truthy (timestamp d) \<and> Date_getTime e (timestamp d) = Some u \<and> u \<noteq> 0 \<longrightarrow> t = u) \<and>
          (truthy (timestamp d) \<and> Date_getTime e (timestamp d) = None \<longrightarrow> t = now) \<and>
          (\<not> truthy (timestamp d) \<longrightarrow> t = now))
   \<and> (truthy (timestamp d) \<and> timestamp d' = timestamp d \<longrightarrow>
        fst (on_notification e now' (Object d') (snd (on_notification e now (Object d) w))) = None \<and>
        setState_calls (snd (on_notification e now' (Object d') (snd (on_notification e now (Object d) w)))) =
        setState_calls (snd (on_notification e now (Object d) w)))"
proof (intro conjI impI)
  assume a: "truthy (timestamp d) \<and> timestamp d = previousNotifyTimestamp w"
  then have t: "truthy (timestamp d)" and q: "timestamp d = previousNotifyTimestamp w"
    by blast+
  have r: "on_notification e now (Object d) w = (None, log_debug ''[CLIENT] notification'' w)"
    using t q by (rule on_notification_discard)
  show "fst (on_notification e now (Object d) w) = None"
    and "setState_calls (snd (on_notification e now (Object d) w)) = setState_calls w"
    and "states (snd (on_notification e now (Object d) w)) = states w"
    and "previousNotifyTimestamp (snd (on_notification e now (Object d) w)) = previousNotifyTimestamp w"
    unfolding r by (simp_all add: log_debug_def)
next
  assume a: "\<not> (truthy (timestamp d) \<and> timestamp d = previousNotifyTimestamp w)"
  note r = on_notification_emit [OF a, of e now]
  show "fst (on_notification e now (Object d) w) = None"
    and "setState_calls (snd (on_notification e now (Object d) w)) =
        setState_calls w @ [notification_fact e now d]"
    and "previousNotifyTimestamp (snd (on_notification e now (Object d) w)) =
        (if truthy (timestamp d) then timestamp d else previousNotifyTimestamp w)"
    unfolding r by (simp_all add: log_debug_def)
next
  let ?t = "case Date_getTime e (if truthy (timestamp d) then timestamp d else JUndefined) of
              None \<Rightarrow> now | Some t \<Rightarrow> if t \<noteq> 0 then t else now"
  have 1: "notification_fact e now d =
          (''data.notification'',
           StateObject \<lparr>ts = JNum ?t, ack = True,
                         val = JStr (template (title d) @ '' '' @ template (message d))\<rparr>)"
    by (simp add: notification_fact_def)
  have 2: "truthy (timestamp d) \<and> timestamp d = JNum n \<and> \<bar>n\<bar> \<le> 8640000000000000 \<longrightarrow> ?t = n"
    by (auto simp add: timeClip_def)
  have 3: "truthy (timestamp d) \<and> Date_getTime e (timestamp d) = Some u \<and> u \<noteq> 0 \<longrightarrow> ?t = u"
    by simp
  have 4: "truthy (timestamp d) \<and> Date_getTime e (timestamp d) = None \<longrightarrow> ?t = now"
    by simp
  have 5: "\<not> truthy (timestamp d) \<longrightarrow> ?t = now"
    by simp
  from 1 2 3 4 5
  show "\<exists>t. notification_fact e now d =
          (''data.notification'',
           StateObject \<lparr>ts = JNum t, ack = True,
                         val = JStr (template (title d) @ '' '' @ template (message d))\<rparr>) \<and>
          (truthy (timestamp d) \<and> timestamp d = JNum n \<and> \<bar>n\<bar> \<le> 8640000000000000 \<longrightarrow> t = n) \<and>
          (truthy (timestamp d) \<and> Date_getTime e (timestamp d) = Some u \<and> u \<noteq> 0 \<longrightarrow> t = u) \<and>
          (truthy (timestamp d) \<and> Date_getTime e (timestamp d) = None \<longrightarrow> t = now) \<and>
          (\<not> truthy (timestamp d) \<longrightarrow> t = now)"
    by (intro exI [of _ ?t] conjI)
next
  assume a: "truthy (timestamp d) \<and> timestamp d' = timestamp d"
  then have t: "truthy (timestamp d)" and q: "timestamp d' = timestamp d"
    by blast+
  have r: "on_notification e now' (Object d') (snd (on_notification e now (Object d) w)) =
           (None, log_debug ''[CLIENT] notification'' (snd (on_notification e now (Object d) w)))"
    using t q by (rule on_notification_second)
  show "fst (on_notification e now' (Object d') (snd (on_notification e now (Object d) w))) = None"
    and "setState_calls (snd (on_notification e now' (Object d') (snd (on_notification e now (Object d) w)))) =
        setState_calls (snd (on_notification e now (Object d) w))"
    unfolding r by (simp_all add: log_debug_def)
qed

theorem notification_deduplicated_by_timestamp_witness:
  "truthy (timestamp notify0)
   \<and> timestamp notify0 \<noteq> previousNotifyTimestamp (NightscoutClient Map.empty)
   \<and> setState_calls (snd (on_notification env0 5 (Object notify0) (NightscoutClient Map.empty))) =
       [(''data.notification'',
         StateObject \<lparr>ts = JNum 1700000000000, ack = True, val = JStr ''Urgent Low''\<rparr>)]
   \<and> previousNotifyTimestamp (snd (on_notification env0 5 (Object notify0) (NightscoutClient Map.empty))) =
       timestamp notify0
   \<and> setState_calls (snd (on_notification env0 6 (Object notify0)
        (snd (on_notification env0 5 (Object notify0) (NightscoutClient Map.empty))))) =
       [(''data.notification'',
         StateObject \<lparr>ts = JNum 1700000000000, ack = True, val = JStr ''Urgent Low''\<rparr>)]
   \<and> Date_getTime env0 (timestamp (notify0\<lparr>timestamp := JStr ''soon''\<rparr>)) = None
   \<and> setState_calls (snd (on_notification env0 7 (Object (notify0\<lparr>timestamp := JStr ''soon''\<rparr>))
        (snd (on_notification env0 5 (Object notify0) (NightscoutClient Map.empty))))) =
       [(''data.notification'',
         StateObject \<lparr>ts = JNum 1700000000000, ack = True, val = JStr ''Urgent Low''\<rparr>),
        (''data.notification'',
         StateObject \<lparr>ts = JNum 7, ack = True, val = JStr ''Urgent Low''\<rparr>)]"
proof -
  let ?w = "NightscoutClient Map.empty"
  let ?w1 = "snd (on_notification env0 5 (Object notify0) ?w)"
  let ?d = "notify0\<lparr>timestamp := JStr ''soon''\<rparr>"
  have t: "truthy (timestamp notify0)" by (simp add: notify0_def)
  have n: "timestamp notify0 \<noteq> previousNotifyTimestamp ?w"
    by (simp add: notify0_def NightscoutClient_def)
  have c: "setState_calls ?w = []" by (simp add: NightscoutClient_def)
  note a = notification_deduplicated_by_timestamp
    [of notify0 ?w env0 5 1700000000000 1700000000000 notify0 6]
  from a t n c
  have 1: "setState_calls ?w1 =
       [(''data.notification'',
         StateObject \<lparr>ts = JNum 1700000000000, ack = True, val = JStr ''Urgent Low''\<rparr>)]"
    and 2: "previousNotifyTimestamp ?w1 = timestamp notify0"
    by (simp_all add: notify0_def)
  from notification_deduplicated_by_timestamp [of notify0 ?w1 env0 6] t 2
  have 3: "setState_calls (snd (on_notification env0 6 (Object notify0) ?w1)) = setState_calls ?w1"
    by simp
  have 4: "Date_getTime env0 (timestamp ?d) = None" by (simp add: env0_def)
  have 5: "truthy (timestamp ?d) \<and> timestamp ?d \<noteq> previousNotifyTimestamp ?w1"
    unfolding 2 by (simp add: notify0_def)
  from notification_deduplicated_by_timestamp [of ?d ?w1 env0 7] 4 5
  have 6: "setState_calls (snd (on_notification env0 7 (Object ?d) ?w1)) =
       setState_calls ?w1 @
         [(''data.notification'', StateObject \<lparr>ts = JNum 7, ack = True, val = JStr ''Urgent Low''\<rparr>)]"
    by (auto simp add: notify0_def)
  from t n 1 2 3 4 6 show ?thesis by simp
qed

text \<open>
  Claim C10. A notification whose timestamp is falsy (undefined, null, false, 0, NaN or
  the empty string) is always written, with now as its \<open>ts\<close>, and leaves
  \<open>previousNotifyTimestamp\<close> as it was; two such notifications in a row are both
  written.
\<close>

theorem notification_without_timestamp_always_written:
  "(\<not> truthy (timestamp d) \<longrightarrow>
      fst (on_notification e now (Object d) w) = None \<and>
      previousNotifyTimestamp (snd (on_notification e now (Object d) w)) = previousNotifyTimestamp w \<and>
      setState_calls (snd (on_notification e now (Object d) w)) =
        setState_calls w @
          [(''data.notification'',
            StateObject \<lparr>ts = JNum now, ack = True,
                          val = JStr (template (title d) @ '' '' @ template (message d))\<rparr>)] \<and>
      setState_calls (snd (on_notification e now' (Object d) (snd (on_notification e now (Object d) w)))) =
        setState_calls w @
          [(''data.notification'',
            StateObject \<lparr>ts = JNum now, ack = True,
                          val = JStr (template (title d) @ '' '' @ template (message d))\<rparr>),
           (''data.notification'',
            StateObject \<lparr>ts = JNum now', ack = True,
                          val = JStr (template (title d) @ '' '' @ template (message d))\<rparr>)])
   \<and> (\<not> truthy v \<longleftrightarrow> v \<in> {JUndefined, JNull, JBool False, JNum 0, JNaN, JStr []})"
proof (intro conjI impI)
  assume a: "\<not> truthy (timestamp d)"
  then have b: "\<not> (truthy (timestamp d) \<and> timestamp d = previousNotifyTimestamp v)" for v :: world
    by simp
  have f: "notification_fact e t d =
          (''data.notification'',
            StateObject \<lparr>ts = JNum t, ack = True,
                          val = JStr (template (title d) @ '' '' @ template (message d))\<rparr>)" for t
    using a by (simp add: notification_fact_def)
  note r = on_notification_emit [OF b]
  show "fst (on_notification e now (Object d) w) = None"
    unfolding r by simp
  show "previousNotifyTimestamp (snd (on_notification e now (Object d) w)) = previousNotifyTimestamp w"
    unfolding r using a by (simp add: log_debug_def)
  show "setState_calls (snd (on_notification e now (Object d) w)) =
        setState_calls w @
          [(''data.notification'',
            StateObject \<lparr>ts = JNum now, ack = True,
                          val = JStr (template (title d) @ '' '' @ template (message d))\<rparr>)]"
    unfolding r using a by (simp add: log_debug_def f)
  show "setState_calls (snd (on_notification e now' (Object d) (snd (on_notification e now (Object d) w)))) =
        setState_calls w @
          [(''data.notification'',
            StateObject \<lparr>ts = JNum now, ack = True,
                          val = JStr (template (title d) @ '' '' @ template (message d))\<rparr>),
           (''data.notification'',
            StateObject \<lparr>ts = JNum now', ack = True,
                          val = JStr (template (title d) @ '' '' @ template (message d))\<rparr>)]"
    unfolding r using a by (simp add: log_debug_def f)
next
  show "\<not> truthy v \<longleftrightarrow> v \<in> {JUndefined, JNull, JBool False, JNum 0, JNaN, JStr []}"
    by (rule falsy_values)
qed

theorem notification_without_timestamp_always_written_witness:
  "\<not> truthy (timestamp notify1)
   \<and> setState_calls (snd (on_notification env0 8 (Object notify1)
        (snd (on_notification env0 7 (Object notify1) (NightscoutClient Map.empty))))) =
       [(''data.notification'', StateObject \<lparr>ts = JNum 7, ack = True, val = JStr ''Check undefined''\<rparr>),
        (''data.notification'', StateObject \<lparr>ts = JNum 8, ack = True, val = JStr ''Check undefined''\<rparr>)]
   \<and> previousNotifyTimestamp (snd (on_notification env0 7 (Object notify1) (NightscoutClient Map.empty))) =
       JNull"
proof -
  have t: "\<not> truthy (timestamp notify1)" by (simp add: notify1_def)
  have c: "setState_calls (NightscoutClient Map.empty) = []"
    "previousNotifyTimestamp (NightscoutClient Map.empty) = JNull"
    by (simp_all add: NightscoutClient_def)
  from notification_without_timestamp_always_written
    [of notify1 env0 7 "NightscoutClient Map.empty" 8] t c
  show ?thesis by (simp add: notify1_def)
qed

subsection \<open>Connecting and closing\<close>

lemma on_connect_cursor: "previousNotifyTimestamp (snd (on_connect w)) = JNull"
  by (simp add: on_connect_def Let_def log_debug_def split: option.splits)

lemma on_connect_calls: "setState_calls (snd (on_connect w)) = setState_calls w"
  by (simp add: on_connect_def Let_def log_debug_def split: option.splits)

lemma on_connect_ok: "nsSocket w \<noteq> None \<Longrightarrow> fst (on_connect w) = None"
  by (auto simp add: on_connect_def Let_def log_debug_def split: option.splits)

lemma on_notification_nsSocket: "nsSocket (snd (on_notification e now p w)) = nsSocket w"
  by (simp add: on_notification_def Let_def log_debug_def setState_def split: payload.splits)

lemma on_notification_cursor:
  "truthy (timestamp d) \<Longrightarrow>
   previousNotifyTimestamp (snd (on_notification e now (Object d) w)) = timestamp d"
  by (cases "timestamp d = previousNotifyTimestamp w")
     (simp_all add: on_notification_discard on_notification_emit log_debug_def)

lemma deliver_Cons:
  "deliver e ((now, ev) # evs) w =
     (case fst (dispatch e now ev w) of
        Some err \<Rightarrow> (Some err, snd (dispatch e now ev w))
      | None \<Rightarrow> deliver e evs (snd (dispatch e now ev w)))"
  by (simp split: prod.splits option.splits)

text \<open>
  Claim C5. The handler of \<open>connect\<close> sets \<open>previousNotifyTimestamp\<close> to null. So a
  notification with a truthy timestamp that has been handled before (its timestamp is
  stored) is written again when it arrives after a connect.
\<close>

theorem connect_resets_previousNotifyTimestamp:
  "previousNotifyTimestamp (snd (on_connect w)) = JNull
   \<and> (truthy (timestamp d) \<longrightarrow>
        previousNotifyTimestamp (snd (on_notification e now (Object d) w)) = timestamp d \<and>
        setState_calls
          (snd (on_notification e now' (Object d) (snd (on_connect (snd (on_notification e now (Object d) w)))))) =
        setState_calls (snd (on_notification e now (Object d) w)) @ [notification_fact e now' d])
   \<and> (truthy (timestamp d) \<and> nsSocket w \<noteq> None \<longrightarrow>
        fst (deliver e [(now, Notification (Object d)), (now'', Connect), (now', Notification (Object d))] w) = None \<and>
        setState_calls
          (snd (deliver e [(now, Notification (Object d)), (now'', Connect), (now', Notification (Object d))] w)) =
        setState_calls (snd (on_notification e now (Object d) w)) @ [notification_fact e now' d])"
proof (intro conjI impI)
  show "previousNotifyTimestamp (snd (on_connect w)) = JNull" by (rule on_connect_cursor)
next
  assume t: "truthy (timestamp d)"
  then show "previousNotifyTimestamp (snd (on_notification e now (Object d) w)) = timestamp d"
    by (rule on_notification_cursor)
  let ?w1 = "snd (on_notification e now (Object d) w)"
  let ?w2 = "snd (on_connect ?w1)"
  have "timestamp d \<noteq> JNull" using t by auto
  then have "\<not> (truthy (timestamp d) \<and> timestamp d = previousNotifyTimestamp ?w2)"
    by (simp add: on_connect_cursor)
  from on_notification_emit [OF this, of e now']
  show "setState_calls (snd (on_notification e now' (Object d) ?w2)) =
        setState_calls ?w1 @ [notification_fact e now' d]"
    by (simp add: log_debug_def on_connect_calls)
next
  assume a: "truthy (timestamp d) \<and> nsSocket w \<noteq> None"
  then have t: "truthy (timestamp d)" and s: "nsSocket w \<noteq> None" by blast+
  let ?w1 = "snd (on_notification e now (Object d) w)"
  let ?w2 = "snd (on_connect ?w1)"
  let ?w3 = "snd (on_notification e now' (Object d) ?w2)"
  have 1: "fst (on_notification e now (Object d) w) = None"
    by (rule other_handlers_do_not_throw(1))
  have "nsSocket ?w1 \<noteq> None" using s by (simp add: on_notification_nsSocket)
  then have 2: "fst (on_connect ?w1) = None" by (rule on_connect_ok)
  have 3: "fst (on_notification e now' (Object d) ?w2) = None"
    by (rule other_handlers_do_not_throw(1))
  have d: "deliver e [(now, Notification (Object d)), (now'', Connect), (now', Notification (Object d))] w
             = (None, ?w3)"
    by (simp only: deliver_Cons dispatch.simps 1 2 3 option.case deliver.simps)
  have "timestamp d \<noteq> JNull" using t by auto
  then have "\<not> (truthy (timestamp d) \<and> timestamp d = previousNotifyTimestamp ?w2)"
    by (simp add: on_connect_cursor)
  from on_notification_emit [OF this, of e now']
  have c: "setState_calls ?w3 = setState_calls ?w1 @ [notification_fact e now' d]"
    by (simp add: log_debug_def on_connect_calls)
  show "fst (deliver e [(now, Notification (Object d)), (now'', Connect), (now', Notification (Object d))] w) = None"
    unfolding d by simp
  show "setState_calls
          (snd (deliver e [(now, Notification (Object d)), (now'', Connect), (now', Notification (Object d))] w)) =
        setState_calls (snd (on_notification e now (Object d) w)) @ [notification_fact e now' d]"
    unfolding d using c by simp
qed

theorem connect_resets_previousNotifyTimestamp_witness:
  "truthy (timestamp notify0) \<and> nsSocket (NightscoutClient Map.empty) \<noteq> None
   \<and> setState_calls
        (snd (deliver env0 [(5, Notification (Object notify0)), (6, Connect), (7, Notification (Object notify0))]
                (NightscoutClient Map.empty))) =
       [(''data.notification'',
         StateObject \<lparr>ts = JNum 1700000000000, ack = True, val = JStr ''Urgent Low''\<rparr>),
        (''data.notification'',
         StateObject \<lparr>ts = JNum 1700000000000, ack = True, val = JStr ''Urgent Low''\<rparr>)]
   \<and> setState_calls
        (snd (deliver env0 [(5, Notification (Object notify0)), (7, Notification (Object notify0))]
                (NightscoutClient Map.empty))) =
       [(''data.notification'',
         StateObject \<lparr>ts = JNum 1700000000000, ack = True, val = JStr ''Urgent Low''\<rparr>)]"
proof -
  have t: "truthy (timestamp notify0)" by (simp add: notify0_def)
  have s: "nsSocket (NightscoutClient Map.empty) \<noteq> None" by (simp add: NightscoutClient_def)
  have f: "notification_fact env0 7 notify0 =
       (''data.notification'',
         StateObject \<lparr>ts = JNum 1700000000000, ack = True, val = JStr ''Urgent Low''\<rparr>)"
    by (simp add: notification_fact_def notify0_def timeClip_def)
  have 1: "setState_calls (snd (on_notification env0 5 (Object notify0) (NightscoutClient Map.empty))) =
       [(''data.notification'',
         StateObject \<lparr>ts = JNum 1700000000000, ack = True, val = JStr ''Urgent Low''\<rparr>)]"
    by (simp add: on_notification_def notify0_def NightscoutClient_def env0_def strict_eq_def
        log_debug_def timeClip_def Let_def)
  have 2: "setState_calls
        (snd (deliver env0 [(5, Notification (Object notify0)), (7, Notification (Object notify0))]
                (NightscoutClient Map.empty))) =
       [(''data.notification'',
         StateObject \<lparr>ts = JNum 1700000000000, ack = True, val = JStr ''Urgent Low''\<rparr>)]"
    by (simp add: on_notification_def notify0_def NightscoutClient_def env0_def strict_eq_def
        log_debug_def setState_def timeClip_def Let_def)
  from connect_resets_previousNotifyTimestamp
    [of "NightscoutClient Map.empty" notify0 env0 5 7 6] t s f 1 2
  show ?thesis by simp
qed

text \<open>
  Claim C8. \<open>close\<close> never throws and leaves \<open>nsSocket\<close> null; a call on a closed client
  changes nothing, so any number of calls leaves the client as the first call did. The
  transport's \<open>close\<close> is called once if and only if the client held the socket; on a
  fresh client (connected or not) the calls on the transport are one \<open>close\<close>.
\<close>

theorem close_is_idempotent:
  "fst (close w) = None
   \<and> nsSocket (snd (close w)) = None
   \<and> close (snd (close w)) = (None, snd (close w))
   \<and> ((\<lambda>w. snd (close w)) ^^ Suc n) w = snd (close w)
   \<and> count_list (socket_calls (((\<lambda>w. snd (close w)) ^^ Suc n) w)) SocketClose =
       count_list (socket_calls w) SocketClose + (if nsSocket w = None then 0 else 1)
   \<and> socket_calls (((\<lambda>w. snd (close w)) ^^ Suc n) (NightscoutClient st)) = [SocketClose]"
proof -
  have 1: "fst (close w) = None" for w :: world
    by (simp add: close_def split: option.splits)
  have 2: "nsSocket (snd (close w)) = None" for w :: world
    by (simp add: close_def split: option.splits)
  have 3: "close v = (None, v)" if "nsSocket v = None" for v :: world
    using that by (simp add: close_def)
  have 4: "((\<lambda>w. snd (close w)) ^^ Suc n) w = snd (close w)" for w :: world
  proof (induction n)
    case 0
    show ?case by simp
  next
    case (Suc n)
    have "((\<lambda>w. snd (close w)) ^^ Suc (Suc n)) w = snd (close (((\<lambda>w. snd (close w)) ^^ Suc n) w))"
      by simp
    also have "\<dots> = snd (close (snd (close w)))" by (simp only: Suc.IH)
    also have "\<dots> = snd (close w)" using 3 [OF 2 [of w]] by simp
    finally show ?case .
  qed
  have 5: "count_list (socket_calls (snd (close w))) SocketClose =
       count_list (socket_calls w) SocketClose + (if nsSocket w = None then 0 else 1)"
    by (cases "nsSocket w") (simp_all add: close_def)
  have 6: "socket_calls (snd (close (NightscoutClient st))) = [SocketClose]"
    by (simp add: close_def NightscoutClient_def)
  show ?thesis
    unfolding 4 using 1 2 3 [OF 2 [of w]] 5 6 by simp
qed

theorem close_is_idempotent_witness:
  "close (snd (close (NightscoutClient Map.empty))) =
     (None, (NightscoutClient Map.empty)\<lparr>nsSocket := None, socket_calls := [SocketClose]\<rparr>)
   \<and> snd (close (snd (close (snd (close (NightscoutClient Map.empty)))))) =
       (NightscoutClient Map.empty)\<lparr>nsSocket := None, socket_calls := [SocketClose]\<rparr>"
proof -
  have c: "snd (close (NightscoutClient Map.empty)) =
      (NightscoutClient Map.empty)\<lparr>nsSocket := None, socket_calls := [SocketClose]\<rparr>"
    by (simp add: close_def NightscoutClient_def)
  from close_is_idempotent [of "NightscoutClient Map.empty" 2] c
  show ?thesis by (simp add: numeral_2_eq_2)
qed

end
